theory Spec2Isabelle
  imports Main
begin

section \<open>The migration-script parser of sqlparse/sqlparse.go\<close>

text \<open>
  The Go package \<^verbatim>\<open>sqlparse\<close> splits a migration script into statement blocks.
  A Go string is a sequence of bytes, modelled as \<^typ>\<open>string\<close>; the newline is
  \<^term>\<open>CHR 0x0A\<close>. The process-wide variable \<^verbatim>\<open>LineSeparator\<close> is read by the
  parser and is passed to every function that reads it.
\<close>

subsection \<open>Data model\<close>

record migrationStatement =
  Statement :: string
  Loop :: bool
  Conditional :: string

record ParsedMigration =
  UpStatements :: "migrationStatement list"
  DownStatements :: "migrationStatement list"
  DisableTransactionUp :: bool
  DisableTransactionDown :: bool

datatype migrationDirection = directionNone | directionUp | directionDown

record migrateCommand =
  Command :: string
  Options :: "string list"

text \<open>
  The source builds its errors from message strings; each constructor stands for one
  of them:
  \<^item> \<open>SeekError\<close>: the error returned by \<^verbatim>\<open>r.Seek(0, 0)\<close>;
  \<^item> \<open>ScannerError\<close>: the error returned by \<^verbatim>\<open>scanner.Err()\<close>;
  \<^item> \<open>NotACommand\<close>: "not a sql-migrate command";
  \<^item> \<open>MalformedCommand\<close>: "incomplete migration command";
  \<^item> \<open>UnterminatedStatement sep\<close>: the error of \<^verbatim>\<open>errNoTerminator\<close>, whose
    message quotes the separator \<open>sep\<close> when one is configured;
  \<^item> \<open>NestedStatementBlock\<close>: "Cannot begin a statement block inside a loop or
    conditional block";
  \<^item> \<open>ConditionalOutsideLoop\<close>: "saw ConditionalBegin outside of matching LoopBegin";
  \<^item> \<open>NestedLoop\<close>: "Cannot begin a loop inside another loop or statement block";
  \<^item> \<open>UnclosedConditional\<close>: "saw ConditionalBegin with no matching ConditionalEnd
    inside its loop";
  \<^item> \<open>UnterminatedStatementBlock\<close>, \<open>UnterminatedLoop\<close>, \<open>UnterminatedConditional\<close>,
    \<open>NoDirectionFound\<close>: the four diagnostics after the scan;
  \<^item> \<open>ImpossibleState\<close>: the \<^verbatim>\<open>panic("impossible state")\<close>.
\<close>

datatype error =
    SeekError
  | ScannerError
  | NotACommand
  | MalformedCommand
  | UnterminatedStatement string
  | NestedStatementBlock
  | ConditionalOutsideLoop
  | NestedLoop
  | UnclosedConditional
  | UnterminatedStatementBlock
  | UnterminatedLoop
  | UnterminatedConditional
  | NoDirectionFound
  | ImpossibleState

definition sqlCmdPrefix :: string where
  "sqlCmdPrefix = ''-- +migrate ''"

definition optionNoTransaction :: string where
  "optionNoTransaction = ''notransaction''"

definition errNoTerminator :: "string \<Rightarrow> error" where
  "errNoTerminator LineSeparator =
     (if length LineSeparator = 0 then UnterminatedStatement []
      else UnterminatedStatement LineSeparator)"

subsection \<open>The functions of Go's \<^verbatim>\<open>strings\<close> and \<^verbatim>\<open>bufio\<close> that the parser calls\<close>

definition HasPrefix :: "string \<Rightarrow> string \<Rightarrow> bool" where
  "HasPrefix s pre = (length pre \<le> length s \<and> take (length pre) s = pre)"

definition HasSuffix :: "string \<Rightarrow> string \<Rightarrow> bool" where
  "HasSuffix s suf = (length suf \<le> length s \<and> drop (length s - length suf) s = suf)"

text \<open>
  \<^verbatim>\<open>unicode.IsSpace\<close> (and the \<^verbatim>\<open>isSpace\<close> of \<^verbatim>\<open>bufio\<close>) holds of the runes
  U+0009 to U+000D, U+0020, U+0085, U+00A0, U+1680, U+2000 to U+200A, U+2028, U+2029,
  U+202F, U+205F and U+3000. \<open>spaceLen s\<close> is the number of bytes of the UTF-8
  encoding of such a rune when \<open>s\<close> starts with one, and 0 otherwise. No encoding
  of a rune starts inside the encoding of another, so reading bytes with
  \<open>spaceLen\<close> finds the same white space as Go's decoding rune by rune.
\<close>

fun spaceLen :: "string \<Rightarrow> nat" where
  "spaceLen [] = 0"
| "spaceLen (c # cs) =
     (if c \<in> set [CHR 0x09, CHR 0x0A, CHR 0x0B, CHR 0x0C, CHR 0x0D, CHR 0x20] then 1
      else if c = CHR 0xC2 then
        (if take 1 cs \<in> set [[CHR 0x85], [CHR 0xA0]] then 2 else 0)
      else if c = CHR 0xE1 then
        (if take 2 cs = [CHR 0x9A, CHR 0x80] then 3 else 0)
      else if c = CHR 0xE2 then
        (if take 2 cs \<in> set
           [[CHR 0x80, CHR 0x80], [CHR 0x80, CHR 0x81], [CHR 0x80, CHR 0x82],
            [CHR 0x80, CHR 0x83], [CHR 0x80, CHR 0x84], [CHR 0x80, CHR 0x85],
            [CHR 0x80, CHR 0x86], [CHR 0x80, CHR 0x87], [CHR 0x80, CHR 0x88],
            [CHR 0x80, CHR 0x89], [CHR 0x80, CHR 0x8A], [CHR 0x80, CHR 0xA8],
            [CHR 0x80, CHR 0xA9], [CHR 0x80, CHR 0xAF], [CHR 0x81, CHR 0x9F]]
         then 3 else 0)
      else if c = CHR 0xE3 then
        (if take 2 cs = [CHR 0x80, CHR 0x80] then 3 else 0)
      else 0)"

text \<open>
  \<^verbatim>\<open>strings.Fields\<close>: the maximal runs of bytes that are not white space.
  \<open>fieldsFrom k cur s\<close> has \<open>k\<close> bytes of a white-space rune still to skip and
  \<open>cur\<close> the field read so far. \<^verbatim>\<open>bufio.ScanWords\<close> yields the same words.
\<close>

definition emitField :: "string \<Rightarrow> string list" where
  "emitField cur = (if cur = [] then [] else [cur])"

fun fieldsFrom :: "nat \<Rightarrow> string \<Rightarrow> string \<Rightarrow> string list" where
  "fieldsFrom k cur [] = emitField cur"
| "fieldsFrom k cur (c # cs) =
     (if 0 < k then fieldsFrom (k - 1) cur cs
      else (case spaceLen (c # cs) of
              0 \<Rightarrow> fieldsFrom 0 (cur @ [c]) cs
            | Suc n \<Rightarrow> emitField cur @ fieldsFrom n [] cs))"

definition Fields :: "string \<Rightarrow> string list" where
  "Fields s = fieldsFrom 0 [] s"

text \<open>
  \<^verbatim>\<open>strings.TrimSpace\<close>: the string without its leading and its trailing
  white-space runes.
\<close>

fun trimLeftFrom :: "nat \<Rightarrow> string \<Rightarrow> string" where
  "trimLeftFrom k [] = []"
| "trimLeftFrom k (c # cs) =
     (if 0 < k then trimLeftFrom (k - 1) cs
      else (case spaceLen (c # cs) of
              0 \<Rightarrow> c # cs
            | Suc n \<Rightarrow> trimLeftFrom n cs))"

fun trimRight :: "string \<Rightarrow> string" where
  "trimRight [] = []"
| "trimRight (c # cs) =
     (if trimLeftFrom 0 (c # cs) = [] then [] else c # trimRight cs)"

definition TrimSpace :: "string \<Rightarrow> string" where
  "TrimSpace s = trimRight (trimLeftFrom 0 s)"

subsection \<open>endsWithSemicolon, HasOption, parseCommand\<close>

text \<open>
  The loop of \<^verbatim>\<open>endsWithSemicolon\<close> over the words of the line: \<open>prev\<close> is the
  last word before the first word that starts with a double dash. The word scanner
  reads a line that the line scanner has yielded, which is shorter than its buffer
  limit, so it reaches the end of the line without an error.
\<close>

fun lastWord :: "string \<Rightarrow> string list \<Rightarrow> string" where
  "lastWord prev [] = prev"
| "lastWord prev (word # ws) =
     (if HasPrefix word ''--'' then prev else lastWord word ws)"

definition endsWithSemicolon :: "string \<Rightarrow> bool" where
  "endsWithSemicolon line = HasSuffix (lastWord [] (Fields line)) '';''"

fun hasOption :: "string list \<Rightarrow> string \<Rightarrow> bool" where
  "hasOption [] opt = False"
| "hasOption (specifiedOption # rest) opt =
     (if specifiedOption = opt then True else hasOption rest opt)"

definition HasOption :: "migrateCommand \<Rightarrow> string \<Rightarrow> bool" where
  "HasOption c opt = hasOption (Options c) opt"

definition parseCommand :: "string \<Rightarrow> error + migrateCommand" where
  "parseCommand line =
     (if \<not> HasPrefix line sqlCmdPrefix then Inl NotACommand
      else (case Fields (drop (length sqlCmdPrefix) line) of
              [] \<Rightarrow> Inl MalformedCommand
            | f # fs \<Rightarrow> Inr \<lparr>Command = f, Options = fs\<rparr>))"

subsection \<open>The working state of ParseMigration\<close>

text \<open>
  The local variables of \<^verbatim>\<open>ParseMigration\<close>; \<open>pm\<close> is the document \<^verbatim>\<open>p\<close> under
  construction.
\<close>

record parser =
  pm :: ParsedMigration
  statementBuf :: string
  conditionalBuf :: string
  statementEnded :: bool
  ignoreSemicolons :: bool
  currentDirection :: migrationDirection
  isLoop :: bool
  isConditional :: bool

definition initial :: parser where
  "initial =
     \<lparr>pm = \<lparr>UpStatements = [], DownStatements = [],
             DisableTransactionUp = False, DisableTransactionDown = False\<rparr>,
      statementBuf = [], conditionalBuf = [],
      statementEnded = False, ignoreSemicolons = False,
      currentDirection = directionUp,
      isLoop = False, isConditional = False\<rparr>"

text \<open>The \<^verbatim>\<open>switch cmd.Command\<close> of the loop body.\<close>

definition handleCommand :: "string \<Rightarrow> migrateCommand \<Rightarrow> parser \<Rightarrow> error + parser" where
  "handleCommand LineSeparator cmd s =
     (if Command cmd = ''Up'' then
        (if 0 < length (TrimSpace (statementBuf s)) then Inl (errNoTerminator LineSeparator)
         else Inr (s\<lparr>currentDirection := directionUp,
                     pm := (if HasOption cmd optionNoTransaction
                            then (pm s)\<lparr>DisableTransactionUp := True\<rparr> else pm s)\<rparr>))
      else if Command cmd = ''Down'' then
        (if 0 < length (TrimSpace (statementBuf s)) then Inl (errNoTerminator LineSeparator)
         else Inr (s\<lparr>currentDirection := directionDown,
                     pm := (if HasOption cmd optionNoTransaction
                            then (pm s)\<lparr>DisableTransactionDown := True\<rparr> else pm s)\<rparr>))
      else if Command cmd = ''StatementBegin'' then
        (if isLoop s \<or> isConditional s then Inl NestedStatementBlock
         else if currentDirection s \<noteq> directionNone
         then Inr (s\<lparr>ignoreSemicolons := True\<rparr>)
         else Inr s)
      else if Command cmd = ''StatementEnd'' then
        (if isLoop s \<or> isConditional s then Inr s
         else if currentDirection s \<noteq> directionNone
         then Inr (s\<lparr>statementEnded := ignoreSemicolons s, ignoreSemicolons := False\<rparr>)
         else Inr s)
      else if Command cmd = ''ConditionalBegin'' then
        (if \<not> isLoop s then Inl ConditionalOutsideLoop
         else Inr (s\<lparr>isConditional := True\<rparr>))
      else if Command cmd = ''ConditionalEnd'' then
        Inr (s\<lparr>isConditional := False\<rparr>)
      else if Command cmd = ''LoopBegin'' then
        (if ignoreSemicolons s then Inl NestedLoop
         else if currentDirection s \<noteq> directionNone
         then Inr (s\<lparr>isLoop := True, ignoreSemicolons := True,
                     pm := (if currentDirection s = directionUp
                            then (pm s)\<lparr>DisableTransactionUp := True\<rparr>
                            else if currentDirection s = directionDown
                            then (pm s)\<lparr>DisableTransactionDown := True\<rparr>
                            else pm s)\<rparr>)
         else Inr s)
      else if Command cmd = ''LoopEnd'' then
        (if isConditional s then Inl UnclosedConditional
         else if \<not> isLoop s then Inr s
         else if currentDirection s \<noteq> directionNone
         then Inr (s\<lparr>statementEnded := ignoreSemicolons s, ignoreSemicolons := False\<rparr>)
         else Inr s)
      else Inr s)"

text \<open>The flag \<^verbatim>\<open>isLineSeparator\<close>, computed after the command of the line has run.\<close>

definition isLineSeparator :: "string \<Rightarrow> string \<Rightarrow> parser \<Rightarrow> bool" where
  "isLineSeparator LineSeparator line s =
     (\<not> ignoreSemicolons s \<and> 0 < length LineSeparator \<and> line = LineSeparator)"

text \<open>
  The two appending statements: the first writes outside a loop, the second inside a
  loop, to the conditional or to the statement buffer. \<^verbatim>\<open>WriteString\<close> of a
  \<^verbatim>\<open>bytes.Buffer\<close> always returns a nil error, so the returns that follow the
  writes are never taken.
\<close>

definition appendLine :: "string \<Rightarrow> string \<Rightarrow> parser \<Rightarrow> parser" where
  "appendLine LineSeparator line s =
     (let s1 = (if \<not> isLineSeparator LineSeparator line s \<and> \<not> HasPrefix line ''-- +''
                   \<and> \<not> isLoop s
                then s\<lparr>statementBuf := statementBuf s @ line @ [CHR 0x0A]\<rparr> else s)
      in if isLoop s1 then
           (if isConditional s1
            then s1\<lparr>conditionalBuf := conditionalBuf s1 @ line @ [CHR 0x0A]\<rparr>
            else s1\<lparr>statementBuf := statementBuf s1 @ line @ [CHR 0x0A]\<rparr>)
         else s1)"

text \<open>
  The last \<^verbatim>\<open>if\<close> of the loop body: a concluded statement is appended to the
  sequence of the current direction and the buffers are reset. \<open>sepLine\<close> is the
  flag \<^verbatim>\<open>isLineSeparator\<close> computed before the line was appended.
\<close>

definition concludeStatement :: "bool \<Rightarrow> string \<Rightarrow> parser \<Rightarrow> error + parser" where
  "concludeStatement sepLine line s =
     (if (\<not> ignoreSemicolons s \<and> (endsWithSemicolon line \<or> sepLine)) \<or> statementEnded s then
        (let newStatement = \<lparr>Statement = statementBuf s, Loop = isLoop s,
                              Conditional = conditionalBuf s\<rparr>
         in case currentDirection s of
              directionUp \<Rightarrow>
                Inr (s\<lparr>statementEnded := False,
                       pm := (pm s)\<lparr>UpStatements := UpStatements (pm s) @ [newStatement]\<rparr>,
                       isLoop := False, statementBuf := [], conditionalBuf := []\<rparr>)
            | directionDown \<Rightarrow>
                Inr (s\<lparr>statementEnded := False,
                       pm := (pm s)\<lparr>DownStatements := DownStatements (pm s) @ [newStatement]\<rparr>,
                       isLoop := False, statementBuf := [], conditionalBuf := []\<rparr>)
            | directionNone \<Rightarrow> Inl ImpossibleState)
      else Inr s)"

text \<open>One iteration of \<^verbatim>\<open>for scanner.Scan()\<close>, on the line \<^verbatim>\<open>scanner.Text()\<close>.\<close>

definition scanLine :: "string \<Rightarrow> string \<Rightarrow> parser \<Rightarrow> error + parser" where
  "scanLine LineSeparator line s =
     (if HasPrefix line ''-- '' \<and> \<not> HasPrefix line ''-- +'' then Inr s
      else
        (case (if HasPrefix line sqlCmdPrefix then
                 (case parseCommand line of
                    Inl e \<Rightarrow> Inl e
                  | Inr cmd \<Rightarrow> handleCommand LineSeparator cmd s)
               else Inr s) of
           Inl e \<Rightarrow> Inl e
         | Inr s1 \<Rightarrow>
             if currentDirection s1 = directionNone then Inr s1
             else concludeStatement (isLineSeparator LineSeparator line s1) line
                    (appendLine LineSeparator line s1)))"

fun scanLoop :: "string \<Rightarrow> string list \<Rightarrow> parser \<Rightarrow> error + parser" where
  "scanLoop LineSeparator [] s = Inr s"
| "scanLoop LineSeparator (line # rest) s =
     (case scanLine LineSeparator line s of
        Inl e \<Rightarrow> Inl e
      | Inr s' \<Rightarrow> scanLoop LineSeparator rest s')"

text \<open>The checks after the loop, from \<^verbatim>\<open>if ignoreSemicolons\<close> to \<^verbatim>\<open>return p, nil\<close>.\<close>

definition finish :: "string \<Rightarrow> parser \<Rightarrow> error + ParsedMigration" where
  "finish LineSeparator s =
     (if ignoreSemicolons s then Inl UnterminatedStatementBlock
      else if isLoop s then Inl UnterminatedLoop
      else if isConditional s then Inl UnterminatedConditional
      else if currentDirection s = directionNone then Inl NoDirectionFound
      else if 0 < length (TrimSpace (statementBuf s)) \<and> \<not> HasPrefix (statementBuf s) ''-- +''
      then Inl (errNoTerminator LineSeparator)
      else Inr (pm s))"

text \<open>
  The \<^verbatim>\<open>io.ReadSeeker\<close> as the parser sees it: whether \<^verbatim>\<open>Seek\<close> fails, the lines
  that \<^verbatim>\<open>scanner.Scan\<close> yields in turn (each without its line terminator), and
  whether \<^verbatim>\<open>scanner.Err\<close> reports an error once \<^verbatim>\<open>Scan\<close> has returned false (a
  read error, or a line of 64 KiB or more).
\<close>

record reader =
  seekFails :: bool
  scanned :: "string list"
  scanFails :: bool

definition script :: "string list \<Rightarrow> reader" where
  "script ls = \<lparr>seekFails = False, scanned = ls, scanFails = False\<rparr>"

definition ParseMigration :: "string \<Rightarrow> reader \<Rightarrow> error + ParsedMigration" where
  "ParseMigration LineSeparator r =
     (if seekFails r then Inl SeekError
      else (case scanLoop LineSeparator (scanned r) initial of
              Inl e \<Rightarrow> Inl e
            | Inr s \<Rightarrow>
                if scanFails r then Inl ScannerError
                else finish LineSeparator s))"

subsection \<open>Predicates used in the properties\<close>

text \<open>
  What holds of the working state between two lines of every scan: a direction is set,
  no conclusion of a statement is pending, a loop suppresses the semicolons, and the
  conditional flag and conditional text occur in a loop only.
\<close>

definition consistent :: "parser \<Rightarrow> bool" where
  "consistent s =
     (currentDirection s \<noteq> directionNone \<and> \<not> statementEnded s
      \<and> (isLoop s \<longrightarrow> ignoreSemicolons s)
      \<and> (isConditional s \<longrightarrow> isLoop s)
      \<and> (conditionalBuf s \<noteq> [] \<longrightarrow> isLoop s))"

text \<open>All statement blocks of a document, the up statements first.\<close>

definition blocks :: "ParsedMigration \<Rightarrow> migrationStatement list" where
  "blocks d = UpStatements d @ DownStatements d"

definition conditionalOnlyInLoop :: "migrationStatement \<Rightarrow> bool" where
  "conditionalOnlyInLoop b = (Conditional b \<noteq> [] \<longrightarrow> Loop b)"

text \<open>
  What holds in the middle of an iteration, after the command of the line has run: a
  loop whose semicolons are no longer suppressed is about to be concluded.
\<close>

definition midLine :: "parser \<Rightarrow> bool" where
  "midLine s =
     (currentDirection s \<noteq> directionNone
      \<and> (isConditional s \<longrightarrow> isLoop s \<and> ignoreSemicolons s \<and> \<not> statementEnded s)
      \<and> (isLoop s \<and> \<not> ignoreSemicolons s \<longrightarrow> statementEnded s)
      \<and> (conditionalBuf s \<noteq> [] \<longrightarrow> isLoop s)
      \<and> (statementEnded s \<longrightarrow> \<not> ignoreSemicolons s))"

text \<open>
  The text that a list of appended lines leaves in a buffer: every line followed by a
  newline.
\<close>

definition asText :: "string list \<Rightarrow> string" where
  "asText ls = concat (map (\<lambda>l. l @ [CHR 0x0A]) ls)"

text \<open>
  The working state between two statements: no block is open and only the statement
  buffer may hold text.
\<close>

definition idle :: "migrationDirection \<Rightarrow> ParsedMigration \<Rightarrow> string \<Rightarrow> parser" where
  "idle dir d buf =
     \<lparr>pm = d, statementBuf = buf, conditionalBuf = [],
      statementEnded = False, ignoreSemicolons = False,
      currentDirection = dir, isLoop = False, isConditional = False\<rparr>"

definition emptyDocument :: ParsedMigration where
  "emptyDocument =
     \<lparr>UpStatements = [], DownStatements = [],
      DisableTransactionUp = False, DisableTransactionDown = False\<rparr>"

text \<open>The document with one more statement block in the sequence of a direction.\<close>

definition appendStatement ::
  "migrationDirection \<Rightarrow> migrationStatement \<Rightarrow> ParsedMigration \<Rightarrow> ParsedMigration" where
  "appendStatement dir b d =
     (case dir of
        directionUp \<Rightarrow> d\<lparr>UpStatements := UpStatements d @ [b]\<rparr>
      | directionDown \<Rightarrow> d\<lparr>DownStatements := DownStatements d @ [b]\<rparr>
      | directionNone \<Rightarrow> d)"

text \<open>
  A statement terminated by a semicolon, as a list of lines: its last line, and no line
  before it, ends with a semicolon in the sense of \<open>endsWithSemicolon\<close>; no line is
  an annotation, and none is the configured separator line.
\<close>

definition semicolonStatement :: "string \<Rightarrow> string list \<Rightarrow> bool" where
  "semicolonStatement LineSeparator ls =
     (ls \<noteq> [] \<and> endsWithSemicolon (last ls)
      \<and> (\<forall>l \<in> set (butlast ls). \<not> endsWithSemicolon l)
      \<and> (\<forall>l \<in> set ls. \<not> HasPrefix l sqlCmdPrefix
                        \<and> (LineSeparator = [] \<or> l \<noteq> LineSeparator)))"

text \<open>
  The block that the parser makes of such a statement: the lines that do not start
  with a double dash and a space, each with its newline.
\<close>

definition plainBlock :: "string list \<Rightarrow> migrationStatement" where
  "plainBlock ls =
     \<lparr>Statement = asText (filter (\<lambda>l. \<not> HasPrefix l ''-- '') ls),
      Loop = False, Conditional = []\<rparr>"

text \<open>The command name of an annotation line; None for a line that is no command.\<close>

definition commandName :: "string \<Rightarrow> string option" where
  "commandName line = (case parseCommand line of Inl e \<Rightarrow> None | Inr c \<Rightarrow> Some (Command c))"

text \<open>The direction that an Up or a Down command sets.\<close>

definition directionOf :: "string \<Rightarrow> migrationDirection" where
  "directionOf name =
     (if name = ''Up'' then directionUp
      else if name = ''Down'' then directionDown else directionNone)"

text \<open>The document with the disable-transaction flag of a direction set.\<close>

definition disableTransaction :: "migrationDirection \<Rightarrow> ParsedMigration \<Rightarrow> ParsedMigration" where
  "disableTransaction dir d =
     (case dir of
        directionUp \<Rightarrow> d\<lparr>DisableTransactionUp := True\<rparr>
      | directionDown \<Rightarrow> d\<lparr>DisableTransactionDown := True\<rparr>
      | directionNone \<Rightarrow> d)"

text \<open>
  The working state inside a StatementBegin block, and inside a loop (\<open>cond\<close>: inside
  its conditional).
\<close>

definition inStatementBlock :: "migrationDirection \<Rightarrow> ParsedMigration \<Rightarrow> string \<Rightarrow> parser" where
  "inStatementBlock dir d buf =
     \<lparr>pm = d, statementBuf = buf, conditionalBuf = [],
      statementEnded = False, ignoreSemicolons = True,
      currentDirection = dir, isLoop = False, isConditional = False\<rparr>"

definition inLoop ::
  "migrationDirection \<Rightarrow> ParsedMigration \<Rightarrow> string \<Rightarrow> string \<Rightarrow> bool \<Rightarrow> parser" where
  "inLoop dir d sbuf cbuf cond =
     \<lparr>pm = d, statementBuf = sbuf, conditionalBuf = cbuf,
      statementEnded = False, ignoreSemicolons = True,
      currentDirection = dir, isLoop = True, isConditional = cond\<rparr>"

text \<open>The lines that the first test of the loop body discards.\<close>

definition isComment :: "string \<Rightarrow> bool" where
  "isComment line = (HasPrefix line ''-- '' \<and> \<not> HasPrefix line ''-- +'')"

text \<open>
  The block that the parser makes of a loop region: the LoopBegin line \<open>lb\<close>, the
  ConditionalBegin line \<open>cb\<close>, the lines \<open>qs\<close> of the query, the ConditionalEnd
  line \<open>ce\<close>, the further lines \<open>body\<close> and the LoopEnd line \<open>le\<close>.
\<close>

definition loopBlock ::
  "string \<Rightarrow> string \<Rightarrow> string list \<Rightarrow> string \<Rightarrow> string list \<Rightarrow> string \<Rightarrow> migrationStatement" where
  "loopBlock lb cb qs ce body le =
     \<lparr>Statement = asText ([lb, ce] @ filter (\<lambda>l. \<not> isComment l) body @ [le]),
      Loop = True,
      Conditional = asText (cb # filter (\<lambda>l. \<not> isComment l) qs)\<rparr>"

text \<open>
  The working state after the statement accumulated so far has been concluded: its
  block is appended to the sequence of the current direction, the loop flag is cleared
  and both buffers are empty.
\<close>

definition concluded :: "parser \<Rightarrow> parser" where
  "concluded s =
     s\<lparr>pm := appendStatement (currentDirection s)
                \<lparr>Statement = statementBuf s, Loop = isLoop s,
                 Conditional = conditionalBuf s\<rparr> (pm s),
       isLoop := False, statementBuf := [], conditionalBuf := []\<rparr>"

text \<open>
  A text made of lines of \<open>A\<close>, each with its newline, none of which starts with
  \<^verbatim>\<open>-- +\<close>.
\<close>

definition plainText :: "string set \<Rightarrow> string \<Rightarrow> bool" where
  "plainText A t = (\<exists>ls. t = asText ls \<and> (\<forall>l \<in> set ls. l \<in> A \<and> \<not> HasPrefix l ''-- +''))"

text \<open>
  The part of an iteration that handles the migrate-specific commands: the body of
  \<^verbatim>\<open>if strings.HasPrefix(line, sqlCmdPrefix)\<close>.
\<close>

definition runCommand :: "string \<Rightarrow> string \<Rightarrow> parser \<Rightarrow> error + parser" where
  "runCommand LineSeparator line s =
     (if HasPrefix line sqlCmdPrefix then
        (case parseCommand line of
           Inl e \<Rightarrow> Inl e
         | Inr cmd \<Rightarrow> handleCommand LineSeparator cmd s)
      else Inr s)"

text \<open>
  Outside a loop the statement buffer is plain text, and so is the text of every block
  that is no loop block; such a block has no conditional text.
\<close>

definition plainOutsideLoops :: "string set \<Rightarrow> parser \<Rightarrow> bool" where
  "plainOutsideLoops A s =
     ((\<not> isLoop s \<longrightarrow> plainText A (statementBuf s))
      \<and> (\<forall>b \<in> set (blocks (pm s)).
            \<not> Loop b \<longrightarrow> Conditional b = [] \<and> plainText A (Statement b)))"

section \<open>Properties\<close>

subsection \<open>The direction is never None\<close>

lemma handleCommand_direction:
  "handleCommand sep cmd s = Inr s' \<Longrightarrow> currentDirection s \<noteq> directionNone
   \<Longrightarrow> currentDirection s' \<noteq> directionNone"
  by (auto simp: handleCommand_def split: if_splits)

lemma appendLine_direction [simp]:
  "currentDirection (appendLine sep line s) = currentDirection s"
  by (simp add: appendLine_def Let_def)

lemma concludeStatement_direction:
  "concludeStatement b line s = Inr s' \<Longrightarrow> currentDirection s' = currentDirection s"
  by (auto simp: concludeStatement_def Let_def split: if_splits migrationDirection.splits)

lemma scanLine_direction:
  "scanLine sep line s = Inr s' \<Longrightarrow> currentDirection s \<noteq> directionNone
   \<Longrightarrow> currentDirection s' \<noteq> directionNone"
  by (auto simp: scanLine_def split: if_splits sum.splits
           dest: handleCommand_direction concludeStatement_direction)

lemma scanLoop_direction:
  "scanLoop sep ls s = Inr s' \<Longrightarrow> currentDirection s \<noteq> directionNone
   \<Longrightarrow> currentDirection s' \<noteq> directionNone"
proof (induction ls arbitrary: s)
  case Nil
  then show ?case by simp
next
  case (Cons l ls)
  then show ?case
    by (auto split: sum.splits dest: scanLine_direction)
qed

lemma handleCommand_error: "handleCommand sep cmd s \<noteq> Inl NoDirectionFound"
  by (simp add: handleCommand_def errNoTerminator_def)

lemma concludeStatement_error: "concludeStatement b line s \<noteq> Inl NoDirectionFound"
  by (simp add: concludeStatement_def Let_def split: migrationDirection.splits)

lemma scanLine_error: "scanLine sep line s \<noteq> Inl NoDirectionFound"
  by (auto simp: scanLine_def parseCommand_def handleCommand_error concludeStatement_error
           split: sum.splits list.splits if_splits)

lemma scanLoop_error: "scanLoop sep ls s \<noteq> Inl NoDirectionFound"
  by (induction ls arbitrary: s) (auto simp: scanLine_error split: sum.splits)

text \<open>
  Claim C1, as stated: a script with no Up and no Down annotation line fails with
  NoDirectionFound. The script of the single line \<^verbatim>\<open>SELECT 1;\<close> has no annotation
  and is parsed into a document with one up statement.
\<close>

theorem C1_counterexample:
  "ParseMigration [] (script [''SELECT 1;'']) =
     Inr \<lparr>UpStatements =
            [\<lparr>Statement = ''SELECT 1;\<newline>'', Loop = False, Conditional = []\<rparr>],
          DownStatements = [], DisableTransactionUp = False,
          DisableTransactionDown = False\<rparr>"
  by code_simp

text \<open>
  Claim C1, amended: the working direction starts as Up and is only ever set to Up or
  Down, so no input at all, with or without Up and Down annotation lines, makes
  ParseMigration fail with NoDirectionFound.
\<close>

theorem C1_never_NoDirectionFound: "ParseMigration sep r \<noteq> Inl NoDirectionFound"
proof (cases "scanLoop sep (scanned r) initial")
  case (Inl e)
  then have "e \<noteq> NoDirectionFound"
    using scanLoop_error [of sep "scanned r" initial] by auto
  with Inl show ?thesis by (simp add: ParseMigration_def)
next
  case (Inr s)
  then have "currentDirection s \<noteq> directionNone"
    by (rule scanLoop_direction) (simp add: initial_def)
  with Inr show ?thesis
    by (simp add: ParseMigration_def finish_def errNoTerminator_def)
qed

subsection \<open>The invariant of the scan\<close>

lemma consistent_midLine: "consistent s \<Longrightarrow> midLine s"
  by (auto simp: consistent_def midLine_def)

lemma handleCommand_midLine:
  "handleCommand sep cmd s = Inr s1 \<Longrightarrow> consistent s \<Longrightarrow> midLine s1"
  by (auto simp: handleCommand_def consistent_def midLine_def split: if_splits)

lemma handleCommand_blocks:
  "handleCommand sep cmd s = Inr s1 \<Longrightarrow> blocks (pm s1) = blocks (pm s)"
  by (auto simp: handleCommand_def blocks_def split: if_splits)

lemma appendLine_flags [simp]:
  "isLoop (appendLine sep line s) = isLoop s"
  "isConditional (appendLine sep line s) = isConditional s"
  "ignoreSemicolons (appendLine sep line s) = ignoreSemicolons s"
  "statementEnded (appendLine sep line s) = statementEnded s"
  "pm (appendLine sep line s) = pm s"
  by (simp_all add: appendLine_def Let_def)

lemma appendLine_conditionalBuf:
  "conditionalBuf (appendLine sep line s) \<noteq> [] \<Longrightarrow> conditionalBuf s \<noteq> [] \<or> isLoop s"
  by (auto simp: appendLine_def Let_def split: if_splits)

lemma appendLine_midLine: "midLine s \<Longrightarrow> midLine (appendLine sep line s)"
  unfolding midLine_def using appendLine_conditionalBuf [of sep line s] by auto

lemma concludeStatement_consistent:
  "concludeStatement b line s = Inr s' \<Longrightarrow> midLine s \<Longrightarrow> consistent s'"
  by (auto simp: concludeStatement_def midLine_def consistent_def Let_def
           split: if_splits migrationDirection.splits)

lemma concludeStatement_blocks:
  "concludeStatement b line s = Inr s' \<Longrightarrow> midLine s
   \<Longrightarrow> \<forall>x \<in> set (blocks (pm s)). conditionalOnlyInLoop x
   \<Longrightarrow> \<forall>x \<in> set (blocks (pm s')). conditionalOnlyInLoop x"
  by (auto simp: concludeStatement_def midLine_def blocks_def conditionalOnlyInLoop_def Let_def
           split: if_splits migrationDirection.splits)

lemma scanLine_cases:
  assumes "scanLine sep line s = Inr s'"
  obtains (skipped) "s' = s"
  | (processed) s1 where "s1 = s \<or> (\<exists>cmd. handleCommand sep cmd s = Inr s1)"
      and "currentDirection s1 \<noteq> directionNone"
      and "concludeStatement (isLineSeparator sep line s1) line (appendLine sep line s1) = Inr s'"
  | (undirected) s1 where "s1 = s \<or> (\<exists>cmd. handleCommand sep cmd s = Inr s1)"
      and "currentDirection s1 = directionNone" and "s' = s1"
  using assms
  by (auto simp: scanLine_def split: if_splits sum.splits)

lemma scanLine_consistent:
  assumes "scanLine sep line s = Inr s'" and "consistent s"
  shows "consistent s'"
  using assms(1)
proof (cases rule: scanLine_cases)
  case skipped
  with assms show ?thesis by simp
next
  case (processed s1)
  then have "midLine s1"
    using assms(2) by (auto intro: consistent_midLine handleCommand_midLine)
  then have "midLine (appendLine sep line s1)" by (rule appendLine_midLine)
  with processed(3) show ?thesis by (rule concludeStatement_consistent)
next
  case (undirected s1)
  then have "midLine s1"
    using assms(2) by (auto intro: consistent_midLine handleCommand_midLine)
  with undirected show ?thesis by (simp add: midLine_def)
qed

lemma scanLine_blocks:
  assumes "scanLine sep line s = Inr s'" and "consistent s"
    and "\<forall>x \<in> set (blocks (pm s)). conditionalOnlyInLoop x"
  shows "\<forall>x \<in> set (blocks (pm s')). conditionalOnlyInLoop x"
  using assms(1)
proof (cases rule: scanLine_cases)
  case skipped
  with assms show ?thesis by simp
next
  case (processed s1)
  then have m: "midLine s1"
    using assms(2) by (auto intro: consistent_midLine handleCommand_midLine)
  from processed(1) have "blocks (pm s1) = blocks (pm s)"
    by (auto dest: handleCommand_blocks)
  with assms(3) have "\<forall>x \<in> set (blocks (pm (appendLine sep line s1))). conditionalOnlyInLoop x"
    by simp
  with processed(3) appendLine_midLine [OF m] show ?thesis
    by (rule concludeStatement_blocks)
next
  case (undirected s1)
  then have "midLine s1"
    using assms(2) by (auto intro: consistent_midLine handleCommand_midLine)
  with undirected show ?thesis by (simp add: midLine_def)
qed

lemma scanLoop_consistent:
  "scanLoop sep ls s = Inr s' \<Longrightarrow> consistent s \<Longrightarrow> consistent s'"
  by (induction ls arbitrary: s) (auto split: sum.splits dest: scanLine_consistent)

lemma scanLoop_blocks:
  "scanLoop sep ls s = Inr s' \<Longrightarrow> consistent s
   \<Longrightarrow> \<forall>x \<in> set (blocks (pm s)). conditionalOnlyInLoop x
   \<Longrightarrow> \<forall>x \<in> set (blocks (pm s')). conditionalOnlyInLoop x"
proof (induction ls arbitrary: s)
  case Nil
  then show ?case by simp
next
  case (Cons l ls)
  from Cons.prems(1) obtain s1 where l: "scanLine sep l s = Inr s1"
    and r: "scanLoop sep ls s1 = Inr s'"
    by (auto split: sum.splits)
  from l Cons.prems(2) have "consistent s1" by (rule scanLine_consistent)
  moreover from l Cons.prems(2,3) have "\<forall>x \<in> set (blocks (pm s1)). conditionalOnlyInLoop x"
    by (rule scanLine_blocks)
  ultimately show ?case using r Cons.IH by blast
qed

lemma initial_consistent: "consistent initial"
  by (simp add: consistent_def initial_def)

lemma ParseMigration_Inr:
  assumes "ParseMigration sep r = Inr d"
  obtains s where "scanLoop sep (scanned r) initial = Inr s" and "finish sep s = Inr d"
    and "\<not> seekFails r" and "\<not> scanFails r"
  using assms by (auto simp: ParseMigration_def split: if_splits sum.splits)

lemma finish_Inr: "finish sep s = Inr d \<Longrightarrow> d = pm s"
  by (auto simp: finish_def split: if_splits)

subsection \<open>Conditional text only in loop blocks\<close>

text \<open>
  Claim C6: whenever ParseMigration returns a document, every statement block of its
  up statements and of its down statements with a non-empty conditional text has its
  loop flag set.
\<close>

theorem C6_conditional_only_in_loop:
  assumes "ParseMigration sep r = Inr d"
  shows "\<forall>b \<in> set (UpStatements d) \<union> set (DownStatements d). Conditional b \<noteq> [] \<longrightarrow> Loop b"
proof -
  from assms obtain s where s: "scanLoop sep (scanned r) initial = Inr s"
    and f: "finish sep s = Inr d"
    by (rule ParseMigration_Inr)
  have "\<forall>x \<in> set (blocks (pm initial)). conditionalOnlyInLoop x"
    by (simp add: initial_def blocks_def)
  with s initial_consistent have "\<forall>x \<in> set (blocks (pm s)). conditionalOnlyInLoop x"
    by (rule scanLoop_blocks)
  with finish_Inr [OF f] show ?thesis
    by (simp add: blocks_def conditionalOnlyInLoop_def)
qed

theorem C6_witness:
  "ParseMigration [] (script [''-- +migrate Down'', ''-- +migrate LoopBegin'',
       ''-- +migrate ConditionalBegin'', ''SELECT 1;'', ''-- +migrate ConditionalEnd'',
       ''UPDATE t;'', ''-- +migrate LoopEnd'', ''DROP TABLE t;'']) =
     Inr \<lparr>UpStatements = [],
          DownStatements =
            [\<lparr>Statement = ''-- +migrate LoopBegin\<newline>-- +migrate ConditionalEnd\<newline>UPDATE t;\<newline>-- +migrate LoopEnd\<newline>'',
              Loop = True,
              Conditional = ''-- +migrate ConditionalBegin\<newline>SELECT 1;\<newline>''\<rparr>,
             \<lparr>Statement = ''DROP TABLE t;\<newline>'', Loop = False, Conditional = []\<rparr>],
          DisableTransactionUp = False, DisableTransactionDown = True\<rparr>
   \<and> Conditional \<lparr>Statement = ''-- +migrate LoopBegin\<newline>-- +migrate ConditionalEnd\<newline>UPDATE t;\<newline>-- +migrate LoopEnd\<newline>'',
              Loop = True,
              Conditional = ''-- +migrate ConditionalBegin\<newline>SELECT 1;\<newline>''\<rparr> \<noteq> []
   \<and> Loop \<lparr>Statement = ''-- +migrate LoopBegin\<newline>-- +migrate ConditionalEnd\<newline>UPDATE t;\<newline>-- +migrate LoopEnd\<newline>'',
              Loop = True,
              Conditional = ''-- +migrate ConditionalBegin\<newline>SELECT 1;\<newline>''\<rparr>"
proof -
  have h: "ParseMigration [] (script [''-- +migrate Down'', ''-- +migrate LoopBegin'',
       ''-- +migrate ConditionalBegin'', ''SELECT 1;'', ''-- +migrate ConditionalEnd'',
       ''UPDATE t;'', ''-- +migrate LoopEnd'', ''DROP TABLE t;'']) =
     Inr \<lparr>UpStatements = [],
          DownStatements =
            [\<lparr>Statement = ''-- +migrate LoopBegin\<newline>-- +migrate ConditionalEnd\<newline>UPDATE t;\<newline>-- +migrate LoopEnd\<newline>'',
              Loop = True,
              Conditional = ''-- +migrate ConditionalBegin\<newline>SELECT 1;\<newline>''\<rparr>,
             \<lparr>Statement = ''DROP TABLE t;\<newline>'', Loop = False, Conditional = []\<rparr>],
          DisableTransactionUp = False, DisableTransactionDown = True\<rparr>"
    by code_simp
  show ?thesis using h C6_conditional_only_in_loop [OF h] by simp
qed

subsection \<open>Comment lines\<close>

lemma scanLoop_append:
  "scanLoop sep (xs @ ys) s =
     (case scanLoop sep xs s of Inl e \<Rightarrow> Inl e | Inr s' \<Rightarrow> scanLoop sep ys s')"
  by (induction xs arbitrary: s) (auto split: sum.splits)

text \<open>
  Claim C9, as stated: a line that starts with a double dash and not with the command
  prefix changes no state. The line \<^verbatim>\<open>--x\<close> starts with a double dash, is appended
  to the statement buffer, and as the last line of a script makes the parse fail.
\<close>

theorem C9_counterexample:
  "HasPrefix ''--x'' ''--'' \<and> \<not> HasPrefix ''--x'' sqlCmdPrefix
   \<and> scanLine [] ''--x'' initial = Inr (initial\<lparr>statementBuf := ''--x\<newline>''\<rparr>)
   \<and> ParseMigration [] (script [''SELECT 1;'', ''--x'']) = Inl (UnterminatedStatement [])"
  by code_simp

text \<open>
  Claim C9, amended: a line that starts with a double dash and a space, and not with
  \<^verbatim>\<open>-- +\<close>, is discarded entirely: its iteration leaves the working state as it
  was, and the script with the line gives the result of the script without it.
\<close>

theorem C9_comment_discarded:
  assumes "HasPrefix line ''-- ''" and "\<not> HasPrefix line ''-- +''"
  shows "scanLine sep line s = Inr s
     \<and> ParseMigration sep (r\<lparr>scanned := before @ line # after\<rparr>)
         = ParseMigration sep (r\<lparr>scanned := before @ after\<rparr>)"
proof -
  have l: "scanLine sep line s' = Inr s'" for s'
    using assms by (simp add: scanLine_def)
  then have "scanLoop sep (before @ line # after) initial = scanLoop sep (before @ after) initial"
    by (simp add: scanLoop_append split: sum.splits)
  with l show ?thesis by (simp add: ParseMigration_def split: sum.splits)
qed

theorem C9_witness:
  "HasPrefix ''-- nothing to downgrade!'' ''-- ''
   \<and> \<not> HasPrefix ''-- nothing to downgrade!'' ''-- +''
   \<and> scanLine [] ''-- nothing to downgrade!'' initial = Inr initial
   \<and> ParseMigration [] (script [''-- +migrate Down'', ''-- nothing to downgrade!''])
       = ParseMigration [] (script [''-- +migrate Down''])"
proof -
  have p: "HasPrefix ''-- nothing to downgrade!'' ''-- ''"
    and n: "\<not> HasPrefix ''-- nothing to downgrade!'' ''-- +''"
    by (simp_all add: HasPrefix_def)
  show ?thesis
    using p n C9_comment_discarded [OF p n, where sep = "[]" and s = initial and r = "script []"
        and before = "[''-- +migrate Down'']" and after = "[]"]
    by (simp add: script_def)
qed

subsection \<open>The checks at the end of the input\<close>

text \<open>
  Claim C7: when the end of the input is reached (the scan has returned the state
  \<open>s\<close> and the scanner reports no error), the checks run in this order, the first
  failure winning: semicolons still ignored gives UnterminatedStatementBlock; else a loop
  still open gives UnterminatedLoop; else a conditional still open gives
  UnterminatedConditional; else the direction None gives NoDirectionFound; else a
  statement buffer with text other than white space that does not start with
  \<^verbatim>\<open>-- +\<close> gives UnterminatedStatement; else the document is returned.
\<close>

theorem C7_final_checks:
  assumes "\<not> seekFails r" and "scanLoop sep (scanned r) initial = Inr s" and "\<not> scanFails r"
  shows "ParseMigration sep r =
     (if ignoreSemicolons s then Inl UnterminatedStatementBlock
      else if isLoop s then Inl UnterminatedLoop
      else if isConditional s then Inl UnterminatedConditional
      else if currentDirection s = directionNone then Inl NoDirectionFound
      else if TrimSpace (statementBuf s) \<noteq> [] \<and> \<not> HasPrefix (statementBuf s) ''-- +''
      then Inl (UnterminatedStatement sep)
      else Inr (pm s))"
  using assms by (simp add: ParseMigration_def finish_def errNoTerminator_def)

theorem C7_witness:
  "ParseMigration [] (script [''-- +migrate Up'', ''-- +migrate StatementBegin'', ''SELECT 1''])
     = Inl UnterminatedStatementBlock
   \<and> ParseMigration [] (script [''-- +migrate Up'', ''SELECT 1'']) = Inl (UnterminatedStatement [])
   \<and> ParseMigration [] (script [''-- +migrate Up'', ''SELECT 1;'']) =
       Inr \<lparr>UpStatements = [\<lparr>Statement = ''SELECT 1;\<newline>'', Loop = False, Conditional = []\<rparr>],
            DownStatements = [], DisableTransactionUp = False, DisableTransactionDown = False\<rparr>"
proof -
  have a: "scanLoop [] (scanned (script [''-- +migrate Up'', ''-- +migrate StatementBegin'', ''SELECT 1''])) initial
             = Inr (initial\<lparr>ignoreSemicolons := True, statementBuf := ''SELECT 1\<newline>''\<rparr>)"
    by code_simp
  have b: "scanLoop [] (scanned (script [''-- +migrate Up'', ''SELECT 1''])) initial
             = Inr (initial\<lparr>statementBuf := ''SELECT 1\<newline>''\<rparr>)"
    by code_simp
  have c: "scanLoop [] (scanned (script [''-- +migrate Up'', ''SELECT 1;''])) initial
             = Inr (initial\<lparr>pm := \<lparr>UpStatements = [\<lparr>Statement = ''SELECT 1;\<newline>'', Loop = False, Conditional = []\<rparr>],
            DownStatements = [], DisableTransactionUp = False, DisableTransactionDown = False\<rparr>\<rparr>)"
    by code_simp
  have t: "TrimSpace ''SELECT 1\<newline>'' \<noteq> []" "TrimSpace [] = []"
    by code_simp+
  have f: "\<not> seekFails (script ls)" "\<not> scanFails (script ls)" for ls
    by (simp_all add: script_def)
  show ?thesis
    using C7_final_checks [OF f(1) a f(2)] C7_final_checks [OF f(1) b f(2)]
      C7_final_checks [OF f(1) c f(2)] t
    by (simp add: initial_def HasPrefix_def)
qed

subsection \<open>Prefixes, words and lines outside the blocks\<close>

lemma HasPrefix_iff: "HasPrefix l p \<longleftrightarrow> (\<exists>r. l = p @ r)"
proof
  assume "HasPrefix l p"
  then have "take (length p) l = p" by (simp add: HasPrefix_def)
  then have "l = p @ drop (length p) l"
    using append_take_drop_id [of "length p" l] by simp
  then show "\<exists>r. l = p @ r" ..
next
  assume "\<exists>r. l = p @ r"
  then show "HasPrefix l p" by (auto simp: HasPrefix_def)
qed

lemma HasPrefix_append: "HasPrefix l (p @ q) \<Longrightarrow> HasPrefix l p"
  by (auto simp: HasPrefix_iff)

lemma fieldsFrom_current:
  "cur \<noteq> [] \<Longrightarrow> \<exists>w ws. fieldsFrom k cur s = w # ws \<and> HasPrefix w cur"
proof (induction s arbitrary: k cur)
  case Nil
  then show ?case by (simp add: emitField_def HasPrefix_def)
next
  case (Cons c cs)
  show ?case
  proof (cases "0 < k")
    case True
    with Cons.IH [OF Cons.prems, of "k - 1"] show ?thesis by simp
  next
    case False
    show ?thesis
    proof (cases "spaceLen (c # cs)")
      case 0
      from Cons.IH [of "cur @ [c]" 0] obtain w ws
        where w: "fieldsFrom 0 (cur @ [c]) cs = w # ws"
          and t: "HasPrefix w (cur @ [c])"
        by auto
      from t have "HasPrefix w cur" by (rule HasPrefix_append)
      with w False 0 show ?thesis by simp
    next
      case (Suc n)
      with False Cons.prems show ?thesis by (simp add: emitField_def HasPrefix_def)
    qed
  qed
qed

lemma endsWithSemicolon_dashes:
  assumes "HasPrefix l ''--''"
  shows "\<not> endsWithSemicolon l"
proof -
  from assms obtain rest where l: "l = ''--'' @ rest"
    by (auto simp: HasPrefix_iff)
  have "Fields l = fieldsFrom 0 ''--'' rest"
    by (simp add: l Fields_def)
  moreover obtain w ws where "fieldsFrom 0 ''--'' rest = w # ws" and "HasPrefix w ''--''"
    using fieldsFrom_current [of "''--''" 0 rest] by auto
  ultimately show ?thesis
    by (simp add: endsWithSemicolon_def HasSuffix_def)
qed

lemma HasPrefix_command:
  assumes "HasPrefix l sqlCmdPrefix"
  shows "HasPrefix l ''-- +''" and "HasPrefix l ''-- ''" and "HasPrefix l ''--''"
proof -
  have "sqlCmdPrefix = ''-- +'' @ ''migrate ''" "sqlCmdPrefix = ''-- '' @ ''+migrate ''"
    "sqlCmdPrefix = ''--'' @ '' +migrate ''"
    by (simp_all add: sqlCmdPrefix_def)
  with assms show "HasPrefix l ''-- +''" and "HasPrefix l ''-- ''" and "HasPrefix l ''--''"
    by (metis HasPrefix_append)+
qed

lemma HasPrefix_dash_space:
  assumes "HasPrefix l ''-- +''"
  shows "HasPrefix l ''-- ''"
  using assms HasPrefix_append [of l "''-- ''" "''+''"] by simp

lemma HasPrefix_dash_dash:
  assumes "HasPrefix l ''-- ''"
  shows "HasPrefix l ''--''"
  using assms HasPrefix_append [of l "''--''" "'' ''"] by simp

lemma TrimSpace_Nil [simp]: "TrimSpace [] = []"
  by (simp add: TrimSpace_def)

text \<open>Lines read in the idle state.\<close>

lemma scanLine_idle_dashed:
  assumes "HasPrefix l ''-- ''" and "\<not> HasPrefix l sqlCmdPrefix"
    and "sep = [] \<or> l \<noteq> sep"
  shows "scanLine sep l (idle dir d buf) = Inr (idle dir d buf)"
proof (cases "HasPrefix l ''-- +''")
  case False
  with assms show ?thesis by (simp add: scanLine_def)
next
  case True
  have "\<not> endsWithSemicolon l"
    using assms(1) by (intro endsWithSemicolon_dashes HasPrefix_dash_dash)
  with True assms show ?thesis
    by (auto simp: scanLine_def idle_def isLineSeparator_def appendLine_def
        concludeStatement_def)
qed

lemma scanLine_idle_open:
  assumes "\<not> HasPrefix l ''-- ''" and "\<not> endsWithSemicolon l"
    and "sep = [] \<or> l \<noteq> sep" and "dir \<noteq> directionNone"
  shows "scanLine sep l (idle dir d buf) = Inr (idle dir d (buf @ l @ [CHR 0x0A]))"
proof -
  from assms(1) have "\<not> HasPrefix l sqlCmdPrefix" "\<not> HasPrefix l ''-- +''"
    using HasPrefix_command(2) HasPrefix_dash_space by blast+
  with assms show ?thesis
    by (auto simp: scanLine_def idle_def isLineSeparator_def appendLine_def
        concludeStatement_def)
qed

lemma scanLine_idle_semicolon:
  assumes "endsWithSemicolon l" and "sep = [] \<or> l \<noteq> sep" and "dir \<noteq> directionNone"
  shows "scanLine sep l (idle dir d buf) =
     Inr (idle dir
           (appendStatement dir
              \<lparr>Statement = buf @ l @ [CHR 0x0A], Loop = False, Conditional = []\<rparr> d) [])"
proof -
  from assms(1) have "\<not> HasPrefix l ''--''"
    using endsWithSemicolon_dashes by blast
  then have "\<not> HasPrefix l ''-- ''" "\<not> HasPrefix l sqlCmdPrefix" "\<not> HasPrefix l ''-- +''"
    using HasPrefix_command(3) HasPrefix_dash_space HasPrefix_dash_dash by blast+
  with assms show ?thesis
    by (cases dir)
      (auto simp: scanLine_def idle_def isLineSeparator_def appendLine_def
        concludeStatement_def appendStatement_def)
qed

subsection \<open>Statements terminated by semicolons\<close>

lemma scanLoop_statement_lines:
  assumes "\<forall>l \<in> set (ls @ [z]). \<not> HasPrefix l sqlCmdPrefix \<and> (sep = [] \<or> l \<noteq> sep)"
    and "\<forall>l \<in> set ls. \<not> endsWithSemicolon l"
    and "endsWithSemicolon z" and "dir \<noteq> directionNone"
  shows "scanLoop sep (ls @ [z]) (idle dir d buf) =
     Inr (idle dir
           (appendStatement dir
              \<lparr>Statement = buf @ asText (filter (\<lambda>l. \<not> HasPrefix l ''-- '') (ls @ [z])),
               Loop = False, Conditional = []\<rparr> d) [])"
  using assms(1,2)
proof (induction ls arbitrary: buf)
  case Nil
  have "\<not> HasPrefix z ''-- ''"
    using assms(3) endsWithSemicolon_dashes HasPrefix_dash_dash by blast
  moreover from Nil have "sep = [] \<or> z \<noteq> sep" by simp
  ultimately show ?case
    using assms(3,4) by (simp add: scanLine_idle_semicolon asText_def)
next
  case (Cons l ls)
  from Cons.prems have l: "\<not> HasPrefix l sqlCmdPrefix" "sep = [] \<or> l \<noteq> sep"
    "\<not> endsWithSemicolon l"
    by simp_all
  from Cons.prems have rest: "\<forall>l \<in> set (ls @ [z]). \<not> HasPrefix l sqlCmdPrefix \<and> (sep = [] \<or> l \<noteq> sep)"
    "\<forall>l \<in> set ls. \<not> endsWithSemicolon l"
    by simp_all
  show ?case
  proof (cases "HasPrefix l ''-- ''")
    case True
    with l have "scanLine sep l (idle dir d buf) = Inr (idle dir d buf)"
      by (simp add: scanLine_idle_dashed)
    with True Cons.IH [OF rest] show ?thesis by simp
  next
    case False
    with l assms(4) have "scanLine sep l (idle dir d buf) = Inr (idle dir d (buf @ l @ [CHR 0x0A]))"
      by (simp add: scanLine_idle_open)
    with False Cons.IH [OF rest, of "buf @ l @ [CHR 0x0A]"] show ?thesis
      by (simp add: asText_def)
  qed
qed

lemma scanLoop_statement:
  assumes "semicolonStatement sep ls" and "dir \<noteq> directionNone"
  shows "scanLoop sep ls (idle dir d []) = Inr (idle dir (appendStatement dir (plainBlock ls) d) [])"
proof -
  from assms(1) have ne: "ls \<noteq> []" by (simp add: semicolonStatement_def)
  then have ls: "butlast ls @ [last ls] = ls" by simp
  have "scanLoop sep (butlast ls @ [last ls]) (idle dir d []) =
     Inr (idle dir
           (appendStatement dir
              \<lparr>Statement = [] @ asText (filter (\<lambda>l. \<not> HasPrefix l ''-- '') (butlast ls @ [last ls])),
               Loop = False, Conditional = []\<rparr> d) [])"
    using assms unfolding semicolonStatement_def
    by (intro scanLoop_statement_lines) (simp_all only: ls, simp_all)
  then show ?thesis by (simp only: ls plainBlock_def append_Nil)
qed

lemma scanLoop_statements:
  assumes "\<forall>ls \<in> set stmts. semicolonStatement sep ls"
  shows "scanLoop sep (concat stmts) (idle directionUp d []) =
     Inr (idle directionUp (d\<lparr>UpStatements := UpStatements d @ map plainBlock stmts\<rparr>) [])"
  using assms
proof (induction stmts arbitrary: d)
  case Nil
  then show ?case by simp
next
  case (Cons ls stmts)
  then have "scanLoop sep ls (idle directionUp d []) =
      Inr (idle directionUp (appendStatement directionUp (plainBlock ls) d) [])"
    by (simp add: scanLoop_statement)
  with Cons show ?case
    by (simp add: scanLoop_append appendStatement_def)
qed

lemma finish_idle: "dir \<noteq> directionNone \<Longrightarrow> finish sep (idle dir d []) = Inr d"
  by (simp add: finish_def idle_def)

lemma initial_idle: "initial = idle directionUp emptyDocument []"
  by (simp add: initial_def idle_def emptyDocument_def)

lemma parseCommand_Inr: "parseCommand l = Inr c \<Longrightarrow> HasPrefix l sqlCmdPrefix"
  by (auto simp: parseCommand_def split: if_splits)

lemma scanLine_idle_Up:
  assumes "parseCommand l = Inr c" and "Command c = ''Up''" and "sep = [] \<or> l \<noteq> sep"
  shows "scanLine sep l (idle dir d []) =
     Inr (idle directionUp
           (if HasOption c optionNoTransaction then d\<lparr>DisableTransactionUp := True\<rparr> else d) [])"
proof -
  from assms(1) have p: "HasPrefix l sqlCmdPrefix" by (rule parseCommand_Inr)
  then have "HasPrefix l ''-- +''" "\<not> endsWithSemicolon l"
    using HasPrefix_command endsWithSemicolon_dashes by blast+
  with p assms show ?thesis
    by (auto simp: scanLine_def handleCommand_def idle_def isLineSeparator_def appendLine_def
        concludeStatement_def)
qed

text \<open>
  Claim C10: the working direction is initialised to Up, not None. A script with no
  annotation whose lines form statements terminated by semicolons is parsed with
  success, and its statements are the up statements of the document, in their order.
\<close>

theorem C10_unannotated_script_is_up:
  assumes "\<forall>ls \<in> set stmts. semicolonStatement sep ls"
  shows "currentDirection initial = directionUp
     \<and> ParseMigration sep (script (concat stmts)) =
         Inr \<lparr>UpStatements = map plainBlock stmts, DownStatements = [],
              DisableTransactionUp = False, DisableTransactionDown = False\<rparr>"
proof -
  have "scanLoop sep (concat stmts) initial =
     Inr (idle directionUp
           (emptyDocument\<lparr>UpStatements := UpStatements emptyDocument @ map plainBlock stmts\<rparr>) [])"
    unfolding initial_idle using assms by (rule scanLoop_statements)
  then have "ParseMigration sep (script (concat stmts)) =
     Inr (emptyDocument\<lparr>UpStatements := UpStatements emptyDocument @ map plainBlock stmts\<rparr>)"
    by (simp add: ParseMigration_def script_def finish_idle)
  then show ?thesis by (simp add: emptyDocument_def initial_def)
qed

theorem C10_witness:
  "ParseMigration [] (script [''CREATE TABLE t ('', ''  id int'', '');'', ''-- index'',
       ''CREATE INDEX i ON t (id); -- done'']) =
     Inr \<lparr>UpStatements =
            [\<lparr>Statement = ''CREATE TABLE t (\<newline>  id int\<newline>);\<newline>'', Loop = False, Conditional = []\<rparr>,
             \<lparr>Statement = ''CREATE INDEX i ON t (id); -- done\<newline>'', Loop = False, Conditional = []\<rparr>],
          DownStatements = [], DisableTransactionUp = False, DisableTransactionDown = False\<rparr>"
proof -
  have h: "\<forall>ls \<in> set [[''CREATE TABLE t ('', ''  id int'', '');''],
       [''-- index'', ''CREATE INDEX i ON t (id); -- done'']]. semicolonStatement [] ls"
    by code_simp
  have m: "map plainBlock [[''CREATE TABLE t ('', ''  id int'', '');''],
       [''-- index'', ''CREATE INDEX i ON t (id); -- done'']] =
      [\<lparr>Statement = ''CREATE TABLE t (\<newline>  id int\<newline>);\<newline>'', Loop = False, Conditional = []\<rparr>,
       \<lparr>Statement = ''CREATE INDEX i ON t (id); -- done\<newline>'', Loop = False, Conditional = []\<rparr>]"
    by code_simp
  show ?thesis using C10_unannotated_script_is_up [OF h] m by simp
qed

text \<open>
  Claim C4: a script of one Up annotation line followed by N statements, each
  terminated by a semicolon, and no other annotation, is parsed into exactly N up
  statements, in the order of the script (the block of the i-th statement is the i-th
  up statement), and no down statement.
\<close>

theorem C4_single_up_section:
  assumes "parseCommand up = Inr c" and "Command c = ''Up''" and "sep = [] \<or> up \<noteq> sep"
    and "\<forall>ls \<in> set stmts. semicolonStatement sep ls"
  shows "ParseMigration sep (script (up # concat stmts)) =
         Inr \<lparr>UpStatements = map plainBlock stmts, DownStatements = [],
              DisableTransactionUp = HasOption c optionNoTransaction,
              DisableTransactionDown = False\<rparr>
     \<and> length (map plainBlock stmts) = length stmts"
proof -
  have "scanLine sep up initial =
     Inr (idle directionUp
           (if HasOption c optionNoTransaction then emptyDocument\<lparr>DisableTransactionUp := True\<rparr>
            else emptyDocument) [])"
    unfolding initial_idle using assms(1-3) by (rule scanLine_idle_Up)
  with assms(4) show ?thesis
    by (simp add: ParseMigration_def script_def scanLoop_statements finish_idle
      emptyDocument_def)
qed

theorem C4_witness:
  "ParseMigration [] (script [''-- +migrate Up notransaction'', ''CREATE TABLE t ('', ''  id int'', '');'',
       ''INSERT INTO t'', ''VALUES (1);'', ''DROP TABLE u;'']) =
     Inr \<lparr>UpStatements =
            [\<lparr>Statement = ''CREATE TABLE t (\<newline>  id int\<newline>);\<newline>'', Loop = False, Conditional = []\<rparr>,
             \<lparr>Statement = ''INSERT INTO t\<newline>VALUES (1);\<newline>'', Loop = False, Conditional = []\<rparr>,
             \<lparr>Statement = ''DROP TABLE u;\<newline>'', Loop = False, Conditional = []\<rparr>],
          DownStatements = [], DisableTransactionUp = True, DisableTransactionDown = False\<rparr>"
proof -
  have c: "parseCommand ''-- +migrate Up notransaction'' = Inr \<lparr>Command = ''Up'', Options = [''notransaction'']\<rparr>"
    by code_simp
  have h: "\<forall>ls \<in> set [[''CREATE TABLE t ('', ''  id int'', '');''],
       [''INSERT INTO t'', ''VALUES (1);''], [''DROP TABLE u;'']]. semicolonStatement [] ls"
    by code_simp
  have m: "map plainBlock [[''CREATE TABLE t ('', ''  id int'', '');''],
       [''INSERT INTO t'', ''VALUES (1);''], [''DROP TABLE u;'']] =
      [\<lparr>Statement = ''CREATE TABLE t (\<newline>  id int\<newline>);\<newline>'', Loop = False, Conditional = []\<rparr>,
             \<lparr>Statement = ''INSERT INTO t\<newline>VALUES (1);\<newline>'', Loop = False, Conditional = []\<rparr>,
             \<lparr>Statement = ''DROP TABLE u;\<newline>'', Loop = False, Conditional = []\<rparr>]"
    by code_simp
  have o: "HasOption \<lparr>Command = ''Up'', Options = [''notransaction'']\<rparr> optionNoTransaction"
    by code_simp
  show ?thesis using C4_single_up_section [OF c _ _ h] m o by simp
qed

subsection \<open>Statement blocks and loops\<close>

lemma commandName_Some:
  assumes "commandName l = Some name"
  obtains c where "parseCommand l = Inr c" and "Command c = name"
    and "HasPrefix l sqlCmdPrefix" and "HasPrefix l ''-- +''" and "HasPrefix l ''-- ''"
    and "\<not> endsWithSemicolon l"
proof -
  from assms obtain c where c: "parseCommand l = Inr c" "Command c = name"
    by (auto simp: commandName_def split: sum.splits)
  then have p: "HasPrefix l sqlCmdPrefix" by (simp add: parseCommand_Inr)
  then have "HasPrefix l ''-- +''" "HasPrefix l ''-- ''" "\<not> endsWithSemicolon l"
    using HasPrefix_command endsWithSemicolon_dashes by blast+
  with c p that show thesis by blast
qed

lemma scanLine_idle_StatementBegin:
  assumes "commandName l = Some ''StatementBegin''" and "dir \<noteq> directionNone"
  shows "scanLine sep l (idle dir d buf) = Inr (inStatementBlock dir d buf)"
  using assms(1)
proof (rule commandName_Some)
  fix c
  assume "parseCommand l = Inr c" "Command c = ''StatementBegin''"
    "HasPrefix l sqlCmdPrefix" "HasPrefix l ''-- +''" "HasPrefix l ''-- ''"
    "\<not> endsWithSemicolon l"
  with assms(2) show ?thesis
    by (simp add: scanLine_def handleCommand_def idle_def inStatementBlock_def
        isLineSeparator_def appendLine_def concludeStatement_def)
qed

lemma scanLine_inStatementBlock:
  assumes "\<not> HasPrefix l sqlCmdPrefix" and "dir \<noteq> directionNone"
  shows "scanLine sep l (inStatementBlock dir d buf) =
     Inr (inStatementBlock dir d (if HasPrefix l ''-- '' then buf else buf @ l @ [CHR 0x0A]))"
proof (cases "HasPrefix l ''-- +''")
  case True
  then have "HasPrefix l ''-- ''" by (rule HasPrefix_dash_space)
  with True assms show ?thesis
    by (simp add: scanLine_def inStatementBlock_def isLineSeparator_def appendLine_def
        concludeStatement_def)
next
  case False
  with assms show ?thesis
    by (simp add: scanLine_def inStatementBlock_def isLineSeparator_def appendLine_def
        concludeStatement_def)
qed

lemma scanLoop_inStatementBlock:
  assumes "\<forall>l \<in> set body. \<not> HasPrefix l sqlCmdPrefix" and "dir \<noteq> directionNone"
  shows "scanLoop sep body (inStatementBlock dir d buf) =
     Inr (inStatementBlock dir d (buf @ asText (filter (\<lambda>l. \<not> HasPrefix l ''-- '') body)))"
  using assms(1)
proof (induction body arbitrary: buf)
  case Nil
  then show ?case by (simp add: asText_def)
next
  case (Cons l body)
  then show ?case
    using assms(2) by (simp add: scanLine_inStatementBlock asText_def)
qed

lemma scanLine_StatementEnd:
  assumes "commandName l = Some ''StatementEnd''" and "dir \<noteq> directionNone"
  shows "scanLine sep l (inStatementBlock dir d buf) =
     Inr (idle dir
           (appendStatement dir \<lparr>Statement = buf, Loop = False, Conditional = []\<rparr> d) [])"
  using assms(1)
proof (rule commandName_Some)
  fix c
  assume "parseCommand l = Inr c" "Command c = ''StatementEnd''"
    "HasPrefix l sqlCmdPrefix" "HasPrefix l ''-- +''" "HasPrefix l ''-- ''"
    "\<not> endsWithSemicolon l"
  with assms(2) show ?thesis
    by (cases dir)
      (simp_all add: scanLine_def handleCommand_def idle_def inStatementBlock_def
        isLineSeparator_def appendLine_def concludeStatement_def appendStatement_def)
qed

lemma scanLine_idle_direction:
  assumes "commandName l = Some name" and "name = ''Up'' \<or> name = ''Down''"
    and "sep = [] \<or> l \<noteq> sep"
  shows "\<exists>d'. scanLine sep l (idle dir d []) = Inr (idle (directionOf name) d' [])
     \<and> UpStatements d' = UpStatements d \<and> DownStatements d' = DownStatements d
     \<and> (DisableTransactionUp d \<longrightarrow> DisableTransactionUp d')
     \<and> (DisableTransactionDown d \<longrightarrow> DisableTransactionDown d')"
  using assms(1)
proof (rule commandName_Some)
  fix c
  assume "parseCommand l = Inr c" "Command c = name"
    "HasPrefix l sqlCmdPrefix" "HasPrefix l ''-- +''" "HasPrefix l ''-- ''"
    "\<not> endsWithSemicolon l"
  with assms(2,3) show ?thesis
    by (auto simp: scanLine_def handleCommand_def idle_def directionOf_def
        isLineSeparator_def appendLine_def concludeStatement_def)
qed

lemma asText_simps [simp]:
  "asText [] = []"
  "asText (l # ls) = l @ CHR 0x0A # asText ls"
  "asText (xs @ ys) = asText xs @ asText ys"
  by (simp_all add: asText_def)

lemma directionOf_set: "name = ''Up'' \<or> name = ''Down'' \<Longrightarrow> directionOf name \<noteq> directionNone"
  by (auto simp: directionOf_def)

text \<open>
  Claim C5: a script whose direction section wraps a body in a StatementBegin line and
  a StatementEnd line is parsed into exactly one statement block for that region; its
  text is the whole body, every line of it that does not start with a double dash and
  a space, so all the semicolons of the body are in the one text and split nothing.
\<close>

theorem C5_statement_block:
  assumes "commandName dl = Some name" and "name = ''Up'' \<or> name = ''Down''"
    and "sep = [] \<or> dl \<noteq> sep"
    and "commandName sb = Some ''StatementBegin''" and "commandName se = Some ''StatementEnd''"
    and "\<forall>l \<in> set body. \<not> HasPrefix l sqlCmdPrefix"
  shows "\<exists>d. ParseMigration sep (script (dl # sb # body @ [se])) = Inr d
     \<and> (if name = ''Up''
         then UpStatements d = [plainBlock body] \<and> DownStatements d = []
         else DownStatements d = [plainBlock body] \<and> UpStatements d = [])"
proof -
  let ?dir = "directionOf name"
  have dir: "?dir \<noteq> directionNone" using assms(2) by (rule directionOf_set)
  obtain d' where 1: "scanLine sep dl initial = Inr (idle ?dir d' [])"
    and d': "UpStatements d' = []" "DownStatements d' = []"
    using scanLine_idle_direction [OF assms(1-3), of directionUp emptyDocument]
    by (auto simp: initial_idle emptyDocument_def)
  have 2: "scanLine sep sb (idle ?dir d' []) = Inr (inStatementBlock ?dir d' [])"
    using assms(4) dir by (rule scanLine_idle_StatementBegin)
  have 3: "scanLoop sep body (inStatementBlock ?dir d' []) =
      Inr (inStatementBlock ?dir d' ([] @ asText (filter (\<lambda>l. \<not> HasPrefix l ''-- '') body)))"
    using assms(6) dir by (rule scanLoop_inStatementBlock)
  have 4: "scanLine sep se (inStatementBlock ?dir d' (Statement (plainBlock body))) =
      Inr (idle ?dir (appendStatement ?dir (plainBlock body) d') [])"
    using scanLine_StatementEnd [OF assms(5) dir, of sep d' "Statement (plainBlock body)"]
    by (simp add: plainBlock_def)
  have "scanLoop sep (dl # sb # body @ [se]) initial =
      Inr (idle ?dir (appendStatement ?dir (plainBlock body) d') [])"
    using 1 2 3 4 by (simp add: scanLoop_append plainBlock_def)
  then have "ParseMigration sep (script (dl # sb # body @ [se])) =
      Inr (appendStatement ?dir (plainBlock body) d')"
    using dir by (simp add: ParseMigration_def script_def finish_idle)
  with d' assms(2) show ?thesis
    by (auto simp: appendStatement_def directionOf_def)
qed

theorem C5_witness:
  "\<exists>d. ParseMigration [] (script [''-- +migrate Up'', ''-- +migrate StatementBegin'',
        ''CREATE FUNCTION f() RETURNS void AS $$'', ''BEGIN'', ''  UPDATE t SET x = 1;'',
        ''  DELETE FROM u;'', ''END;'', ''$$ LANGUAGE plpgsql;'',
        ''-- +migrate StatementEnd'']) = Inr d
     \<and> UpStatements d =
        [\<lparr>Statement = ''CREATE FUNCTION f() RETURNS void AS $$\<newline>BEGIN\<newline>  UPDATE t SET x = 1;\<newline>  DELETE FROM u;\<newline>END;\<newline>$$ LANGUAGE plpgsql;\<newline>'',
          Loop = False, Conditional = []\<rparr>]
     \<and> DownStatements d = []"
proof -
  have n: "commandName ''-- +migrate Up'' = Some ''Up''"
    "commandName ''-- +migrate StatementBegin'' = Some ''StatementBegin''"
    "commandName ''-- +migrate StatementEnd'' = Some ''StatementEnd''"
    by code_simp+
  have b: "\<forall>l \<in> set [''CREATE FUNCTION f() RETURNS void AS $$'', ''BEGIN'', ''  UPDATE t SET x = 1;'',
        ''  DELETE FROM u;'', ''END;'', ''$$ LANGUAGE plpgsql;'']. \<not> HasPrefix l sqlCmdPrefix"
    by code_simp
  have p: "plainBlock [''CREATE FUNCTION f() RETURNS void AS $$'', ''BEGIN'', ''  UPDATE t SET x = 1;'',
        ''  DELETE FROM u;'', ''END;'', ''$$ LANGUAGE plpgsql;''] =
      \<lparr>Statement = ''CREATE FUNCTION f() RETURNS void AS $$\<newline>BEGIN\<newline>  UPDATE t SET x = 1;\<newline>  DELETE FROM u;\<newline>END;\<newline>$$ LANGUAGE plpgsql;\<newline>'',
          Loop = False, Conditional = []\<rparr>"
    by code_simp
  show ?thesis
    using C5_statement_block [OF n(1) _ _ n(2) n(3) b, of "[]"] p by simp
qed

lemma scanLine_idle_LoopBegin:
  assumes "commandName l = Some ''LoopBegin''" and "dir \<noteq> directionNone"
  shows "scanLine sep l (idle dir d buf) =
     Inr (inLoop dir (disableTransaction dir d) (buf @ l @ [CHR 0x0A]) [] False)"
  using assms(1)
proof (rule commandName_Some)
  fix c
  assume "parseCommand l = Inr c" "Command c = ''LoopBegin''"
    "HasPrefix l sqlCmdPrefix" "HasPrefix l ''-- +''" "HasPrefix l ''-- ''"
    "\<not> endsWithSemicolon l"
  with assms(2) show ?thesis
    by (cases dir)
      (simp_all add: scanLine_def handleCommand_def idle_def inLoop_def disableTransaction_def
        isLineSeparator_def appendLine_def concludeStatement_def)
qed

lemma scanLine_ConditionalBegin:
  assumes "commandName l = Some ''ConditionalBegin''" and "dir \<noteq> directionNone"
  shows "scanLine sep l (inLoop dir d sbuf cbuf cond) =
     Inr (inLoop dir d sbuf (cbuf @ l @ [CHR 0x0A]) True)"
  using assms(1)
proof (rule commandName_Some)
  fix c
  assume "parseCommand l = Inr c" "Command c = ''ConditionalBegin''"
    "HasPrefix l sqlCmdPrefix" "HasPrefix l ''-- +''" "HasPrefix l ''-- ''"
    "\<not> endsWithSemicolon l"
  with assms(2) show ?thesis
    by (simp add: scanLine_def handleCommand_def inLoop_def
        isLineSeparator_def appendLine_def concludeStatement_def)
qed

lemma scanLine_ConditionalEnd:
  assumes "commandName l = Some ''ConditionalEnd''" and "dir \<noteq> directionNone"
  shows "scanLine sep l (inLoop dir d sbuf cbuf cond) =
     Inr (inLoop dir d (sbuf @ l @ [CHR 0x0A]) cbuf False)"
  using assms(1)
proof (rule commandName_Some)
  fix c
  assume "parseCommand l = Inr c" "Command c = ''ConditionalEnd''"
    "HasPrefix l sqlCmdPrefix" "HasPrefix l ''-- +''" "HasPrefix l ''-- ''"
    "\<not> endsWithSemicolon l"
  with assms(2) show ?thesis
    by (simp add: scanLine_def handleCommand_def inLoop_def
        isLineSeparator_def appendLine_def concludeStatement_def)
qed

lemma scanLine_LoopEnd:
  assumes "commandName l = Some ''LoopEnd''" and "dir \<noteq> directionNone"
  shows "scanLine sep l (inLoop dir d sbuf cbuf False) =
     Inr (idle dir
           (appendStatement dir
              \<lparr>Statement = sbuf @ l @ [CHR 0x0A], Loop = True, Conditional = cbuf\<rparr> d) [])"
  using assms(1)
proof (rule commandName_Some)
  fix c
  assume "parseCommand l = Inr c" "Command c = ''LoopEnd''"
    "HasPrefix l sqlCmdPrefix" "HasPrefix l ''-- +''" "HasPrefix l ''-- ''"
    "\<not> endsWithSemicolon l"
  with assms(2) show ?thesis
    by (cases dir)
      (simp_all add: scanLine_def handleCommand_def idle_def inLoop_def
        isLineSeparator_def appendLine_def concludeStatement_def appendStatement_def)
qed

lemma scanLine_inLoop:
  assumes "\<not> HasPrefix l sqlCmdPrefix" and "dir \<noteq> directionNone"
  shows "scanLine sep l (inLoop dir d sbuf cbuf cond) =
     Inr (if isComment l then inLoop dir d sbuf cbuf cond
          else if cond then inLoop dir d sbuf (cbuf @ l @ [CHR 0x0A]) cond
          else inLoop dir d (sbuf @ l @ [CHR 0x0A]) cbuf cond)"
  using assms
  by (simp add: scanLine_def inLoop_def isComment_def
        isLineSeparator_def appendLine_def concludeStatement_def)

lemma scanLoop_inLoop:
  assumes "\<forall>l \<in> set ls. \<not> HasPrefix l sqlCmdPrefix" and "dir \<noteq> directionNone"
  shows "scanLoop sep ls (inLoop dir d sbuf cbuf cond) =
     Inr (if cond
          then inLoop dir d sbuf (cbuf @ asText (filter (\<lambda>l. \<not> isComment l) ls)) cond
          else inLoop dir d (sbuf @ asText (filter (\<lambda>l. \<not> isComment l) ls)) cbuf cond)"
  using assms(1)
proof (induction ls arbitrary: sbuf cbuf)
  case Nil
  then show ?case by simp
next
  case (Cons l ls)
  then show ?case
    using assms(2) by (cases cond) (simp_all add: scanLine_inLoop)
qed


text \<open>
  Claim C3: a script of one direction section with a LoopBegin line, a
  ConditionalBegin line, the lines of a query, a ConditionalEnd line, further lines and
  a LoopEnd line is parsed into exactly one statement block, with the loop flag set and
  a conditional text that is not empty, and the disable-transaction flag of the
  direction is set, whatever the options of the direction line.
\<close>

theorem C3_loop_block:
  assumes "commandName dl = Some name" and "name = ''Up'' \<or> name = ''Down''"
    and "sep = [] \<or> dl \<noteq> sep"
    and "commandName lb = Some ''LoopBegin''" and "commandName cb = Some ''ConditionalBegin''"
    and "commandName ce = Some ''ConditionalEnd''" and "commandName le = Some ''LoopEnd''"
    and "\<forall>l \<in> set (qs @ body). \<not> HasPrefix l sqlCmdPrefix"
  shows "\<exists>d b. ParseMigration sep (script (dl # lb # cb # qs @ ce # body @ [le])) = Inr d
     \<and> b = loopBlock lb cb qs ce body le \<and> Loop b \<and> Conditional b \<noteq> []
     \<and> (if name = ''Up''
         then UpStatements d = [b] \<and> DownStatements d = [] \<and> DisableTransactionUp d
         else DownStatements d = [b] \<and> UpStatements d = [] \<and> DisableTransactionDown d)"
proof -
  let ?dir = "directionOf name"
  let ?kept = "filter (\<lambda>l. \<not> isComment l)"
  have dir: "?dir \<noteq> directionNone" using assms(2) by (rule directionOf_set)
  from assms(8) have qs: "\<forall>l \<in> set qs. \<not> HasPrefix l sqlCmdPrefix"
    and body: "\<forall>l \<in> set body. \<not> HasPrefix l sqlCmdPrefix"
    by simp_all
  obtain d' where 1: "scanLine sep dl initial = Inr (idle ?dir d' [])"
    and d': "UpStatements d' = []" "DownStatements d' = []"
    using scanLine_idle_direction [OF assms(1-3), of directionUp emptyDocument]
    by (auto simp: initial_idle emptyDocument_def)
  let ?d = "disableTransaction ?dir d'"
  have 2: "scanLine sep lb (idle ?dir d' []) = Inr (inLoop ?dir ?d (asText [lb]) [] False)"
    using scanLine_idle_LoopBegin [OF assms(4) dir, of sep d' "[]"] by simp
  have 3: "scanLine sep cb (inLoop ?dir ?d (asText [lb]) [] False) =
      Inr (inLoop ?dir ?d (asText [lb]) (asText [cb]) True)"
    using scanLine_ConditionalBegin [OF assms(5) dir, of sep ?d "asText [lb]" "[]" False] by simp
  have 4: "scanLoop sep qs (inLoop ?dir ?d (asText [lb]) (asText [cb]) True) =
      Inr (inLoop ?dir ?d (asText [lb]) (asText (cb # ?kept qs)) True)"
    using scanLoop_inLoop [OF qs dir, of sep ?d "asText [lb]" "asText [cb]" True] by simp
  have 5: "scanLine sep ce (inLoop ?dir ?d (asText [lb]) (asText (cb # ?kept qs)) True) =
      Inr (inLoop ?dir ?d (asText [lb, ce]) (asText (cb # ?kept qs)) False)"
    using scanLine_ConditionalEnd [OF assms(6) dir, of sep ?d "asText [lb]" "asText (cb # ?kept qs)" True]
    by simp
  have 6: "scanLoop sep body (inLoop ?dir ?d (asText [lb, ce]) (asText (cb # ?kept qs)) False) =
      Inr (inLoop ?dir ?d (asText ([lb, ce] @ ?kept body)) (asText (cb # ?kept qs)) False)"
    using scanLoop_inLoop [OF body dir, of sep ?d "asText [lb, ce]" "asText (cb # ?kept qs)" False]
    by simp
  have 7: "scanLine sep le
        (inLoop ?dir ?d (asText ([lb, ce] @ ?kept body)) (asText (cb # ?kept qs)) False) =
      Inr (idle ?dir (appendStatement ?dir (loopBlock lb cb qs ce body le) ?d) [])"
    using scanLine_LoopEnd [OF assms(7) dir, of sep ?d "asText ([lb, ce] @ ?kept body)"
        "asText (cb # ?kept qs)"]
    by (simp add: loopBlock_def)
  have "scanLoop sep (dl # lb # cb # qs @ ce # body @ [le]) initial =
      Inr (idle ?dir (appendStatement ?dir (loopBlock lb cb qs ce body le) ?d) [])"
    using 1 2 3 4 5 6 7 by (simp add: scanLoop_append)
  then have "ParseMigration sep (script (dl # lb # cb # qs @ ce # body @ [le])) =
      Inr (appendStatement ?dir (loopBlock lb cb qs ce body le) ?d)"
    using dir by (simp add: ParseMigration_def script_def finish_idle)
  moreover have "Loop (loopBlock lb cb qs ce body le)"
    "Conditional (loopBlock lb cb qs ce body le) \<noteq> []"
    by (simp_all add: loopBlock_def)
  ultimately show ?thesis
    using d' assms(2)
    by (auto simp: appendStatement_def disableTransaction_def directionOf_def)
qed

theorem C3_witness:
  "\<exists>d b. ParseMigration [] (script [''-- +migrate Up'', ''-- +migrate LoopBegin'',
        ''-- +migrate ConditionalBegin'', ''SELECT COUNT(*) FROM people WHERE first_name IS NULL;'',
        ''-- +migrate ConditionalEnd'',
        ''UPDATE people SET first_name = 0 WHERE first_name IS NULL;'',
        ''-- +migrate LoopEnd'']) = Inr d
     \<and> b = \<lparr>Statement = ''-- +migrate LoopBegin\<newline>-- +migrate ConditionalEnd\<newline>UPDATE people SET first_name = 0 WHERE first_name IS NULL;\<newline>-- +migrate LoopEnd\<newline>'',
             Loop = True,
             Conditional = ''-- +migrate ConditionalBegin\<newline>SELECT COUNT(*) FROM people WHERE first_name IS NULL;\<newline>''\<rparr>
     \<and> UpStatements d = [b] \<and> DownStatements d = [] \<and> DisableTransactionUp d"
proof -
  have n: "commandName ''-- +migrate Up'' = Some ''Up''"
    "commandName ''-- +migrate LoopBegin'' = Some ''LoopBegin''"
    "commandName ''-- +migrate ConditionalBegin'' = Some ''ConditionalBegin''"
    "commandName ''-- +migrate ConditionalEnd'' = Some ''ConditionalEnd''"
    "commandName ''-- +migrate LoopEnd'' = Some ''LoopEnd''"
    by code_simp+
  have l: "\<forall>l \<in> set ([''SELECT COUNT(*) FROM people WHERE first_name IS NULL;'']
        @ [''UPDATE people SET first_name = 0 WHERE first_name IS NULL;'']).
      \<not> HasPrefix l sqlCmdPrefix"
    by code_simp
  have b: "loopBlock ''-- +migrate LoopBegin'' ''-- +migrate ConditionalBegin''
       [''SELECT COUNT(*) FROM people WHERE first_name IS NULL;''] ''-- +migrate ConditionalEnd''
       [''UPDATE people SET first_name = 0 WHERE first_name IS NULL;''] ''-- +migrate LoopEnd'' =
      \<lparr>Statement = ''-- +migrate LoopBegin\<newline>-- +migrate ConditionalEnd\<newline>UPDATE people SET first_name = 0 WHERE first_name IS NULL;\<newline>-- +migrate LoopEnd\<newline>'',
        Loop = True,
        Conditional = ''-- +migrate ConditionalBegin\<newline>SELECT COUNT(*) FROM people WHERE first_name IS NULL;\<newline>''\<rparr>"
    by code_simp
  show ?thesis
    using C3_loop_block [OF n(1) _ _ n(2) n(3) n(4) n(5) l, of "[]"] b by simp
qed

subsection \<open>Lines that are not appended\<close>

lemma scanLine_runCommand:
  "scanLine sep line s =
     (if isComment line then Inr s
      else (case runCommand sep line s of
              Inl e \<Rightarrow> Inl e
            | Inr s1 \<Rightarrow>
                if currentDirection s1 = directionNone then Inr s1
                else concludeStatement (isLineSeparator sep line s1) line
                       (appendLine sep line s1)))"
  by (simp add: scanLine_def runCommand_def isComment_def)

lemma handleCommand_buffers:
  "handleCommand sep cmd s = Inr s1 \<Longrightarrow>
   statementBuf s1 = statementBuf s \<and> conditionalBuf s1 = conditionalBuf s"
  by (auto simp: handleCommand_def split: if_splits)

lemma handleCommand_isLoop:
  "handleCommand sep cmd s = Inr s1 \<Longrightarrow> isLoop s1 \<Longrightarrow>
   isLoop s \<or> Command cmd = ''LoopBegin''"
  by (auto simp: handleCommand_def split: if_splits)

lemma handleCommand_keeps_loop:
  "handleCommand sep cmd s = Inr s1 \<Longrightarrow> isLoop s \<Longrightarrow> isLoop s1"
  by (auto simp: handleCommand_def split: if_splits)

lemma runCommand_cases:
  assumes "runCommand sep line s = Inr s1"
  obtains (plain) "\<not> HasPrefix line sqlCmdPrefix" and "s1 = s"
  | (command) cmd where "HasPrefix line sqlCmdPrefix" and "parseCommand line = Inr cmd"
      and "handleCommand sep cmd s = Inr s1"
  using assms by (auto simp: runCommand_def split: if_splits sum.splits)

lemma runCommand_buffers:
  assumes "runCommand sep line s = Inr s1"
  shows "statementBuf s1 = statementBuf s" and "conditionalBuf s1 = conditionalBuf s"
    and "blocks (pm s1) = blocks (pm s)"
  using assms
  by (cases rule: runCommand_cases; simp add: handleCommand_buffers handleCommand_blocks)+

lemma runCommand_isLoop:
  assumes "runCommand sep line s = Inr s1" and "isLoop s1"
  shows "isLoop s \<or> commandName line = Some ''LoopBegin''"
  using assms(1)
proof (cases rule: runCommand_cases)
  case plain
  with assms(2) show ?thesis by simp
next
  case (command cmd)
  with assms(2) show ?thesis
    by (auto simp: commandName_def dest: handleCommand_isLoop)
qed

lemma runCommand_keeps_loop:
  assumes "runCommand sep line s = Inr s1" and "isLoop s"
  shows "isLoop s1"
  using assms(1)
  by (cases rule: runCommand_cases) (use assms(2) in \<open>auto dest: handleCommand_keeps_loop\<close>)

lemma runCommand_midLine:
  assumes "runCommand sep line s = Inr s1" and "consistent s"
  shows "midLine s1"
  using assms(1)
  by (cases rule: runCommand_cases)
    (use assms(2) in \<open>auto intro: consistent_midLine handleCommand_midLine\<close>)

lemma handleCommand_statements:
  "handleCommand sep cmd s = Inr s1 \<Longrightarrow>
   UpStatements (pm s1) = UpStatements (pm s) \<and> DownStatements (pm s1) = DownStatements (pm s)"
  by (auto simp: handleCommand_def split: if_splits)

lemma runCommand_statements:
  assumes "runCommand sep line s = Inr s1"
  shows "UpStatements (pm s1) = UpStatements (pm s)"
    and "DownStatements (pm s1) = DownStatements (pm s)"
  using assms
  by (cases rule: runCommand_cases; simp add: handleCommand_statements)+

lemma concludeStatement_outcome:
  assumes "concludeStatement b line s = Inr s'"
  shows "s' = s
     \<or> (statementBuf s' = [] \<and> conditionalBuf s' = []
        \<and> currentDirection s' = currentDirection s \<and> currentDirection s \<noteq> directionNone
        \<and> pm s' = appendStatement (currentDirection s)
                    \<lparr>Statement = statementBuf s, Loop = isLoop s,
                     Conditional = conditionalBuf s\<rparr> (pm s))"
  using assms
  by (auto simp: concludeStatement_def appendStatement_def Let_def
      split: if_splits migrationDirection.splits)

lemma not_appended:
  assumes "scanLine sep line s = Inr s'" and "\<not> isLoop s"
    and "commandName line \<noteq> Some ''LoopBegin''"
    and "HasPrefix line sqlCmdPrefix \<or> (sep \<noteq> [] \<and> line = sep \<and> \<not> ignoreSemicolons s)"
  shows "(statementBuf s' = statementBuf s \<and> conditionalBuf s' = conditionalBuf s
        \<and> UpStatements (pm s') = UpStatements (pm s)
        \<and> DownStatements (pm s') = DownStatements (pm s))
     \<or> (statementBuf s' = [] \<and> conditionalBuf s' = []
        \<and> currentDirection s' \<noteq> directionNone
        \<and> UpStatements (pm s') =
            UpStatements (appendStatement (currentDirection s')
              \<lparr>Statement = statementBuf s, Loop = False,
               Conditional = conditionalBuf s\<rparr> (pm s))
        \<and> DownStatements (pm s') =
            DownStatements (appendStatement (currentDirection s')
              \<lparr>Statement = statementBuf s, Loop = False,
               Conditional = conditionalBuf s\<rparr> (pm s)))"
proof (cases "isComment line")
  case True
  with assms(1) show ?thesis by (simp add: scanLine_runCommand)
next
  case False
  with assms(1) obtain s1 where r: "runCommand sep line s = Inr s1"
    and c: "(if currentDirection s1 = directionNone then Inr s1
             else concludeStatement (isLineSeparator sep line s1) line
                    (appendLine sep line s1)) = Inr s'"
    by (auto simp: scanLine_runCommand split: sum.splits)
  note b = runCommand_buffers(1,2) [OF r] runCommand_statements [OF r]
  from r assms(2,3) have l: "\<not> isLoop s1"
    using runCommand_isLoop by blast
  have "isLineSeparator sep line s1 \<or> HasPrefix line ''-- +''"
  proof (cases "HasPrefix line sqlCmdPrefix")
    case True
    then show ?thesis by (simp add: HasPrefix_command)
  next
    case False
    with r have "s1 = s" by (simp add: runCommand_def)
    with False assms(4) show ?thesis by (simp add: isLineSeparator_def)
  qed
  with l have a: "appendLine sep line s1 = s1"
    by (auto simp: appendLine_def)
  show ?thesis
  proof (cases "currentDirection s1 = directionNone")
    case True
    with c b show ?thesis by simp
  next
    case False
    with c a have "concludeStatement (isLineSeparator sep line s1) line s1 = Inr s'"
      by simp
    from concludeStatement_outcome [OF this] show ?thesis
    proof
      assume "s' = s1"
      with b show ?thesis by simp
    next
      assume f: "statementBuf s' = [] \<and> conditionalBuf s' = []
        \<and> currentDirection s' = currentDirection s1 \<and> currentDirection s1 \<noteq> directionNone
        \<and> pm s' = appendStatement (currentDirection s1)
                    \<lparr>Statement = statementBuf s1, Loop = isLoop s1,
                     Conditional = conditionalBuf s1\<rparr> (pm s1)"
      with l b have "UpStatements (pm s') =
            UpStatements (appendStatement (currentDirection s')
              \<lparr>Statement = statementBuf s, Loop = False,
               Conditional = conditionalBuf s\<rparr> (pm s))"
        and "DownStatements (pm s') =
            DownStatements (appendStatement (currentDirection s')
              \<lparr>Statement = statementBuf s, Loop = False,
               Conditional = conditionalBuf s\<rparr> (pm s))"
        by (cases "currentDirection s1"; simp add: appendStatement_def)+
      with f show ?thesis by simp
    qed
  qed
qed

lemma plainText_Nil [simp]: "plainText A []"
  unfolding plainText_def by (rule exI [of _ "[]"]) simp

lemma plainText_append:
  assumes "plainText A t" and "l \<in> A" and "\<not> HasPrefix l ''-- +''"
  shows "plainText A (t @ l @ [CHR 0x0A])"
proof -
  from assms(1) obtain ls where "t = asText ls"
    and "\<forall>x \<in> set ls. x \<in> A \<and> \<not> HasPrefix x ''-- +''"
    by (auto simp: plainText_def)
  with assms(2,3) have "t @ l @ [CHR 0x0A] = asText (ls @ [l])"
    and "\<forall>x \<in> set (ls @ [l]). x \<in> A \<and> \<not> HasPrefix x ''-- +''"
    by simp_all
  then show ?thesis unfolding plainText_def by blast
qed

lemma appendLine_plain:
  assumes "\<not> isLoop s \<longrightarrow> plainText A (statementBuf s)" and "line \<in> A"
  shows "\<not> isLoop s \<longrightarrow> plainText A (statementBuf (appendLine sep line s))"
  using assms by (auto simp: appendLine_def intro: plainText_append)

lemma concludeStatement_plain:
  assumes "concludeStatement b line s = Inr s'" and "midLine s" and "plainOutsideLoops A s"
  shows "plainOutsideLoops A s'"
  using assms
  by (auto simp: concludeStatement_def midLine_def plainOutsideLoops_def blocks_def Let_def
      split: if_splits migrationDirection.splits)

lemma scanLine_plain:
  assumes "scanLine sep line s = Inr s'" and "consistent s" and "plainOutsideLoops A s"
    and "line \<in> A"
  shows "plainOutsideLoops A s'"
proof (cases "isComment line")
  case True
  with assms(1,3) show ?thesis by (simp add: scanLine_runCommand)
next
  case False
  with assms(1) obtain s1 where r: "runCommand sep line s = Inr s1"
    and c: "(if currentDirection s1 = directionNone then Inr s1
             else concludeStatement (isLineSeparator sep line s1) line
                    (appendLine sep line s1)) = Inr s'"
    by (auto simp: scanLine_runCommand split: sum.splits)
  from r assms(2) have m: "midLine s1" by (rule runCommand_midLine)
  then have dir: "currentDirection s1 \<noteq> directionNone" by (simp add: midLine_def)
  have p1: "plainOutsideLoops A s1"
    using assms(3) runCommand_buffers [OF r] runCommand_keeps_loop [OF r]
    by (auto simp: plainOutsideLoops_def)
  then have "plainOutsideLoops A (appendLine sep line s1)"
    using appendLine_plain [of s1 A line sep] assms(4)
    by (simp add: plainOutsideLoops_def)
  moreover have "midLine (appendLine sep line s1)" using m by (rule appendLine_midLine)
  moreover from c dir
  have "concludeStatement (isLineSeparator sep line s1) line (appendLine sep line s1) = Inr s'"
    by simp
  ultimately show ?thesis by (blast intro: concludeStatement_plain)
qed

lemma scanLoop_plain:
  "scanLoop sep ls s = Inr s' \<Longrightarrow> consistent s \<Longrightarrow> plainOutsideLoops A s \<Longrightarrow> set ls \<subseteq> A
   \<Longrightarrow> plainOutsideLoops A s'"
proof (induction ls arbitrary: s)
  case Nil
  then show ?case by simp
next
  case (Cons l ls)
  from Cons.prems(1) obtain s1 where l: "scanLine sep l s = Inr s1"
    and r: "scanLoop sep ls s1 = Inr s'"
    by (auto split: sum.splits)
  from l Cons.prems(2) have "consistent s1" by (rule scanLine_consistent)
  moreover from l Cons.prems have "plainOutsideLoops A s1"
    by (auto intro: scanLine_plain)
  ultimately show ?case using r Cons.IH Cons.prems(4) by auto
qed

text \<open>
  Claim C2, as stated: a line that equals the configured separator, read while a
  direction is set, changes neither buffer. Inside a StatementBegin block the line
  \<^verbatim>\<open>GO\<close>, the configured separator, is appended to the statement buffer and is
  the text of the statement block of the document.
\<close>

theorem C2_counterexample:
  "currentDirection (inStatementBlock directionUp emptyDocument []) = directionUp
   \<and> scanLine ''GO'' ''GO'' (inStatementBlock directionUp emptyDocument [])
       = Inr (inStatementBlock directionUp emptyDocument ''GO\<newline>'')
   \<and> ParseMigration ''GO'' (script [''-- +migrate Up'', ''-- +migrate StatementBegin'', ''GO'',
         ''-- +migrate StatementEnd'']) =
       Inr \<lparr>UpStatements = [\<lparr>Statement = ''GO\<newline>'', Loop = False, Conditional = []\<rparr>],
            DownStatements = [], DisableTransactionUp = False, DisableTransactionDown = False\<rparr>"
  by code_simp

text \<open>
  Claim C2, amended: outside a loop (no loop is open and the line does not open one),
  a line that starts with the command prefix, or that equals the configured non-empty
  separator while semicolons are not ignored, is appended to neither buffer. After
  the line either both buffers and both statement sequences are as they were before
  it, or the line has concluded a statement: both buffers are empty and the sequence of
  the current direction has one more block, whose text and conditional text are the
  buffers as they were before the line, so without the line. In particular, in every
  document that ParseMigration returns, a statement block that is no loop block has no
  conditional text, and its text is made of lines of the script that do not start
  with \<^verbatim>\<open>-- +\<close>, so of no annotation line.
\<close>

theorem C2_not_appended_outside_loops:
  "(scanLine sep line s = Inr s' \<and> \<not> isLoop s \<and> commandName line \<noteq> Some ''LoopBegin''
      \<and> (HasPrefix line sqlCmdPrefix \<or> (sep \<noteq> [] \<and> line = sep \<and> \<not> ignoreSemicolons s))
     \<longrightarrow> (statementBuf s' = statementBuf s \<and> conditionalBuf s' = conditionalBuf s
          \<and> UpStatements (pm s') = UpStatements (pm s)
          \<and> DownStatements (pm s') = DownStatements (pm s))
        \<or> (statementBuf s' = [] \<and> conditionalBuf s' = []
          \<and> currentDirection s' \<noteq> directionNone
          \<and> UpStatements (pm s') =
              UpStatements (appendStatement (currentDirection s')
                \<lparr>Statement = statementBuf s, Loop = False,
                 Conditional = conditionalBuf s\<rparr> (pm s))
          \<and> DownStatements (pm s') =
              DownStatements (appendStatement (currentDirection s')
                \<lparr>Statement = statementBuf s, Loop = False,
                 Conditional = conditionalBuf s\<rparr> (pm s))))
   \<and> (ParseMigration sep r = Inr d
     \<longrightarrow> (\<forall>b \<in> set (UpStatements d) \<union> set (DownStatements d).
            \<not> Loop b \<longrightarrow> Conditional b = [] \<and> plainText (set (scanned r)) (Statement b)))"
proof (intro conjI impI)
  assume "scanLine sep line s = Inr s' \<and> \<not> isLoop s \<and> commandName line \<noteq> Some ''LoopBegin''
      \<and> (HasPrefix line sqlCmdPrefix \<or> (sep \<noteq> [] \<and> line = sep \<and> \<not> ignoreSemicolons s))"
  then show "(statementBuf s' = statementBuf s \<and> conditionalBuf s' = conditionalBuf s
          \<and> UpStatements (pm s') = UpStatements (pm s)
          \<and> DownStatements (pm s') = DownStatements (pm s))
        \<or> (statementBuf s' = [] \<and> conditionalBuf s' = []
          \<and> currentDirection s' \<noteq> directionNone
          \<and> UpStatements (pm s') =
              UpStatements (appendStatement (currentDirection s')
                \<lparr>Statement = statementBuf s, Loop = False,
                 Conditional = conditionalBuf s\<rparr> (pm s))
          \<and> DownStatements (pm s') =
              DownStatements (appendStatement (currentDirection s')
                \<lparr>Statement = statementBuf s, Loop = False,
                 Conditional = conditionalBuf s\<rparr> (pm s)))"
    using not_appended [of sep line s s'] by blast
next
  assume "ParseMigration sep r = Inr d"
  then obtain s where s: "scanLoop sep (scanned r) initial = Inr s"
    and f: "finish sep s = Inr d"
    by (rule ParseMigration_Inr)
  have "plainOutsideLoops (set (scanned r)) initial"
    by (simp add: plainOutsideLoops_def initial_def blocks_def)
  with s initial_consistent have "plainOutsideLoops (set (scanned r)) s"
    by (rule scanLoop_plain) simp
  with finish_Inr [OF f]
  show "\<forall>b \<in> set (UpStatements d) \<union> set (DownStatements d).
            \<not> Loop b \<longrightarrow> Conditional b = [] \<and> plainText (set (scanned r)) (Statement b)"
    by (simp add: plainOutsideLoops_def blocks_def)
qed

theorem C2_witness:
  "scanLine ''GO'' ''-- +migrate StatementBegin'' (idle directionUp emptyDocument ''SELECT 1\<newline>'')
     = Inr (inStatementBlock directionUp emptyDocument ''SELECT 1\<newline>'')
   \<and> statementBuf (inStatementBlock directionUp emptyDocument ''SELECT 1\<newline>'')
       = ''SELECT 1\<newline>''
   \<and> UpStatements (pm (inStatementBlock directionUp emptyDocument ''SELECT 1\<newline>'')) = []
   \<and> scanLine ''GO'' ''GO'' (idle directionUp emptyDocument ''SELECT 1\<newline>'')
     = Inr (concluded (idle directionUp emptyDocument ''SELECT 1\<newline>''))
   \<and> statementBuf (concluded (idle directionUp emptyDocument ''SELECT 1\<newline>'')) = []
   \<and> UpStatements (pm (concluded (idle directionUp emptyDocument ''SELECT 1\<newline>'')))
       = [\<lparr>Statement = ''SELECT 1\<newline>'', Loop = False, Conditional = []\<rparr>]
   \<and> ParseMigration ''GO'' (script [''-- +migrate Up'', ''SELECT 1'', ''GO'']) =
       Inr \<lparr>UpStatements = [\<lparr>Statement = ''SELECT 1\<newline>'', Loop = False, Conditional = []\<rparr>],
            DownStatements = [], DisableTransactionUp = False, DisableTransactionDown = False\<rparr>
   \<and> plainText (set [''-- +migrate Up'', ''SELECT 1'', ''GO'']) ''SELECT 1\<newline>''"
proof -
  let ?s = "idle directionUp emptyDocument ''SELECT 1\<newline>''"
  let ?b = "inStatementBlock directionUp emptyDocument ''SELECT 1\<newline>''"
  let ?P = "\<lambda>s'. (statementBuf s' = statementBuf ?s \<and> conditionalBuf s' = conditionalBuf ?s
          \<and> UpStatements (pm s') = UpStatements (pm ?s)
          \<and> DownStatements (pm s') = DownStatements (pm ?s))
        \<or> (statementBuf s' = [] \<and> conditionalBuf s' = []
          \<and> currentDirection s' \<noteq> directionNone
          \<and> UpStatements (pm s') =
              UpStatements (appendStatement (currentDirection s')
                \<lparr>Statement = statementBuf ?s, Loop = False,
                 Conditional = conditionalBuf ?s\<rparr> (pm ?s))
          \<and> DownStatements (pm s') =
              DownStatements (appendStatement (currentDirection s')
                \<lparr>Statement = statementBuf ?s, Loop = False,
                 Conditional = conditionalBuf ?s\<rparr> (pm ?s)))"
  have a: "scanLine ''GO'' ''-- +migrate StatementBegin'' ?s = Inr ?b"
    and b: "scanLine ''GO'' ''GO'' ?s = Inr (concluded ?s)"
    and l: "\<not> isLoop ?s" "\<not> ignoreSemicolons ?s"
    and n: "commandName ''-- +migrate StatementBegin'' \<noteq> Some ''LoopBegin''"
      "commandName ''GO'' \<noteq> Some ''LoopBegin''"
    and p: "HasPrefix ''-- +migrate StatementBegin'' sqlCmdPrefix"
    by code_simp+
  have d: "ParseMigration ''GO'' (script [''-- +migrate Up'', ''SELECT 1'', ''GO'']) =
       Inr \<lparr>UpStatements = [\<lparr>Statement = ''SELECT 1\<newline>'', Loop = False, Conditional = []\<rparr>],
            DownStatements = [], DisableTransactionUp = False, DisableTransactionDown = False\<rparr>"
    by code_simp
  have "?P ?b"
    using C2_not_appended_outside_loops [where sep = "''GO''" and line = "''-- +migrate StatementBegin''"
        and s = ?s and s' = ?b]
      a l n p by blast
  then have 1: "statementBuf ?b = ''SELECT 1\<newline>''" "UpStatements (pm ?b) = []"
    by (simp_all add: inStatementBlock_def idle_def emptyDocument_def)
  have "?P (concluded ?s)"
    using C2_not_appended_outside_loops [where sep = "''GO''" and line = "''GO''"
        and s = ?s and s' = "concluded ?s"]
      b l n by blast
  then have 2: "statementBuf (concluded ?s) = []"
    "UpStatements (pm (concluded ?s))
       = [\<lparr>Statement = ''SELECT 1\<newline>'', Loop = False, Conditional = []\<rparr>]"
    by (simp_all add: concluded_def idle_def emptyDocument_def appendStatement_def)
  let ?d = "\<lparr>UpStatements = [\<lparr>Statement = ''SELECT 1\<newline>'', Loop = False, Conditional = []\<rparr>],
            DownStatements = [], DisableTransactionUp = False, DisableTransactionDown = False\<rparr>"
  have "\<forall>b \<in> set (UpStatements ?d) \<union> set (DownStatements ?d).
      \<not> Loop b \<longrightarrow> Conditional b = []
        \<and> plainText (set (scanned (script [''-- +migrate Up'', ''SELECT 1'', ''GO'']))) (Statement b)"
    using C2_not_appended_outside_loops [where sep = "''GO''"
        and r = "script [''-- +migrate Up'', ''SELECT 1'', ''GO'']" and d = ?d] d
    by blast
  then have 3: "plainText (set [''-- +migrate Up'', ''SELECT 1'', ''GO'']) ''SELECT 1\<newline>''"
    by (simp add: script_def)
  from a b d 1 2 3 show ?thesis by blast
qed

subsection \<open>The separator line\<close>

text \<open>
  Claim C8, as stated: a line is a separator boundary when the entire trimmed line
  equals the separator and semicolons are not ignored. With the separator \<^verbatim>\<open>GO\<close>,
  the line \<^verbatim>\<open>GO\<close> followed by a space equals the separator once trimmed, is read
  while semicolons are not ignored, and is appended to the statement buffer like any
  other line; the script that ends with it fails for its unterminated statement.
\<close>

theorem C8_counterexample:
  "TrimSpace ''GO '' = ''GO''
   \<and> \<not> ignoreSemicolons (idle directionUp emptyDocument ''SELECT 1\<newline>'')
   \<and> scanLine ''GO'' ''GO '' (idle directionUp emptyDocument ''SELECT 1\<newline>'')
       = Inr (idle directionUp emptyDocument ''SELECT 1\<newline>GO \<newline>'')
   \<and> ParseMigration ''GO'' (script [''-- +migrate Up'', ''SELECT 1'', ''GO ''])
       = Inl (UnterminatedStatement ''GO'')"
  by code_simp

lemma scanLine_content:
  assumes "\<not> isComment line" and "\<not> HasPrefix line sqlCmdPrefix"
    and "currentDirection s \<noteq> directionNone"
  shows "scanLine sep line s =
     concludeStatement (isLineSeparator sep line s) line (appendLine sep line s)"
  using assms by (auto simp: scanLine_def isComment_def)

lemma appendStatement_blocks:
  "dir \<noteq> directionNone \<Longrightarrow>
   length (blocks (appendStatement dir b d)) = Suc (length (blocks d))"
  by (cases dir) (simp_all add: appendStatement_def blocks_def)

lemma concluded_blocks:
  "currentDirection s \<noteq> directionNone \<Longrightarrow>
   length (blocks (pm (concluded s))) = Suc (length (blocks (pm s)))"
  by (simp add: concluded_def appendStatement_blocks)

lemma concluded_buffers [simp]:
  "statementBuf (concluded s) = []" "conditionalBuf (concluded s) = []"
  by (simp_all add: concluded_def)

lemma concludeStatement_separator:
  assumes "consistent s" and "\<not> ignoreSemicolons s"
  shows "concludeStatement True line s = Inr (concluded s)"
  using assms
  by (cases "currentDirection s")
    (simp_all add: concludeStatement_def concluded_def consistent_def appendStatement_def)

lemma concludeStatement_no_separator:
  assumes "consistent s"
  shows "concludeStatement False line (appendLine sep line s)
      = (if \<not> ignoreSemicolons s \<and> endsWithSemicolon line
         then Inr (concluded (appendLine sep line s)) else Inr (appendLine sep line s))"
  using assms
  by (cases "currentDirection s")
    (simp_all add: concludeStatement_def concluded_def consistent_def appendStatement_def)

text \<open>
  Claim C8, amended: for every configured non-empty separator, at every point of every
  script, and for every line that is neither discarded as a comment nor an annotation
  line: the line is treated as a separator boundary (it concludes the current statement
  with the text accumulated before it, which excludes the line) if and only if the
  entire line, exactly as the scanner yields it and with no white space trimmed,
  equals the separator and semicolons are not ignored.
\<close>

theorem C8_exact_separator:
  assumes "sep \<noteq> []" and "scanLoop sep before initial = Inr s"
    and "\<not> isComment line" and "\<not> HasPrefix line sqlCmdPrefix"
  shows "scanLine sep line s = Inr (concluded s) \<longleftrightarrow> line = sep \<and> \<not> ignoreSemicolons s"
proof -
  have cs: "consistent s"
    using assms(2) initial_consistent by (rule scanLoop_consistent)
  show ?thesis
  proof
    assume r: "line = sep \<and> \<not> ignoreSemicolons s"
    from cs have dir: "currentDirection s \<noteq> directionNone"
      by (simp add: consistent_def)
    from r assms(1) have i: "isLineSeparator sep line s"
      by (simp add: isLineSeparator_def)
    from r cs have "\<not> isLoop s" by (auto simp: consistent_def)
    with i have "appendLine sep line s = s" by (simp add: appendLine_def)
    with i dir have "scanLine sep line s = concludeStatement True line s"
      by (simp add: scanLine_content [OF assms(3,4)])
    also have "\<dots> = Inr (concluded s)"
      using cs r by (simp add: concludeStatement_separator)
    finally show "scanLine sep line s = Inr (concluded s)" .
  next
    assume c: "scanLine sep line s = Inr (concluded s)"
    from cs have dir: "currentDirection s \<noteq> directionNone"
      by (simp add: consistent_def)
    show "line = sep \<and> \<not> ignoreSemicolons s"
    proof (rule ccontr)
      assume n: "\<not> (line = sep \<and> \<not> ignoreSemicolons s)"
      then have i: "\<not> isLineSeparator sep line s"
        by (auto simp: isLineSeparator_def)
      let ?a = "appendLine sep line s"
      from i dir have sl: "scanLine sep line s = (if \<not> ignoreSemicolons s \<and> endsWithSemicolon line
           then Inr (concluded ?a) else Inr ?a)"
        by (simp add: scanLine_content [OF assms(3,4)] concludeStatement_no_separator [OF cs])
      note e = c [unfolded sl]
      show False
      proof (cases "\<not> ignoreSemicolons s \<and> endsWithSemicolon line")
        case True
        then have "\<not> HasPrefix line ''-- +''"
          using endsWithSemicolon_dashes HasPrefix_dash_space HasPrefix_dash_dash by blast
        moreover from True cs have "\<not> isLoop s" by (auto simp: consistent_def)
        ultimately have a: "?a = s\<lparr>statementBuf := statementBuf s @ line @ [CHR 0x0A]\<rparr>"
          using i by (simp add: appendLine_def)
        from e True have "pm (concluded ?a) = pm (concluded s)" by simp
        then have "blocks (pm (concluded ?a)) = blocks (pm (concluded s))" by simp
        with dir show False
          by (cases "currentDirection s")
            (simp_all add: a concluded_def appendStatement_def blocks_def)
      next
        case False
        with e have a: "?a = concluded s" by simp
        show False
        proof (cases "statementBuf ?a = statementBuf s \<and> conditionalBuf ?a = conditionalBuf s")
          case True
          then have "?a = s" by (auto simp: appendLine_def Let_def split: if_splits)
          with a have "length (blocks (pm (concluded s))) = length (blocks (pm s))" by simp
          with dir show False by (simp add: concluded_blocks)
        next
          case False
          then have "statementBuf ?a \<noteq> [] \<or> conditionalBuf ?a \<noteq> []"
            by (auto simp: appendLine_def Let_def split: if_splits)
          with a show False by simp
        qed
      qed
    qed
  qed
qed

theorem C8_witness:
  "scanLoop ''GO'' [''-- +migrate Up'', ''SELECT 1''] initial
     = Inr (idle directionUp emptyDocument ''SELECT 1\<newline>'')
   \<and> scanLine ''GO'' ''GO'' (idle directionUp emptyDocument ''SELECT 1\<newline>'')
       = Inr (concluded (idle directionUp emptyDocument ''SELECT 1\<newline>''))
   \<and> scanLine ''GO'' ''GO '' (idle directionUp emptyDocument ''SELECT 1\<newline>'')
       \<noteq> Inr (concluded (idle directionUp emptyDocument ''SELECT 1\<newline>''))
   \<and> concluded (idle directionUp emptyDocument ''SELECT 1\<newline>'')
       = idle directionUp
           (emptyDocument\<lparr>UpStatements :=
              [\<lparr>Statement = ''SELECT 1\<newline>'', Loop = False, Conditional = []\<rparr>]\<rparr>) []"
proof -
  let ?s = "idle directionUp emptyDocument ''SELECT 1\<newline>''"
  have r: "scanLoop ''GO'' [''-- +migrate Up'', ''SELECT 1''] initial = Inr ?s"
    and n: "''GO'' \<noteq> []"
    and c: "\<not> isComment ''GO''" "\<not> isComment ''GO ''"
    and p: "\<not> HasPrefix ''GO'' sqlCmdPrefix" "\<not> HasPrefix ''GO '' sqlCmdPrefix"
    and i: "\<not> ignoreSemicolons ?s"
    and e: "concluded ?s = idle directionUp
           (emptyDocument\<lparr>UpStatements :=
              [\<lparr>Statement = ''SELECT 1\<newline>'', Loop = False, Conditional = []\<rparr>]\<rparr>) []"
    by code_simp+
  show ?thesis
    using C8_exact_separator [OF n r c(1) p(1)] C8_exact_separator [OF n r c(2) p(2)] r i e
    by simp
qed

subsection \<open>The checks at the end of a scan\<close>

text \<open>
  After a scan from the initial state a loop still open has its semicolons still
  ignored, a conditional is open in a loop only, the direction is set, and outside a
  loop the statement buffer does not start with \<^verbatim>\<open>-- +\<close>. So of the checks at
  the end of the input only the first and the last can fail.
\<close>

lemma line_not_annotation:
  assumes "\<not> HasPrefix l ''-- +''"
  shows "\<not> HasPrefix (l @ CHR 0x0A # t) ''-- +''"
  using assms
  by (cases l; cases "tl l"; cases "tl (tl l)"; cases "tl (tl (tl l))")
    (auto simp: HasPrefix_def)

lemma plainText_not_annotation:
  assumes "plainText A t"
  shows "\<not> HasPrefix t ''-- +''"
proof -
  from assms obtain ls where t: "t = asText ls"
    and ls: "\<forall>l \<in> set ls. \<not> HasPrefix l ''-- +''"
    by (auto simp: plainText_def)
  show ?thesis
  proof (cases ls)
    case Nil
    with t show ?thesis by (simp add: HasPrefix_def)
  next
    case (Cons l rest)
    with t ls show ?thesis by (simp add: line_not_annotation)
  qed
qed

lemma reachable_final_checks:
  assumes "\<not> seekFails r" and "scanLoop sep (scanned r) initial = Inr s" and "\<not> scanFails r"
  shows "ParseMigration sep r =
     (if ignoreSemicolons s then Inl UnterminatedStatementBlock
      else if TrimSpace (statementBuf s) \<noteq> [] then Inl (UnterminatedStatement sep)
      else Inr (pm s))"
proof -
  have c: "consistent s"
    using assms(2) initial_consistent by (rule scanLoop_consistent)
  have "plainOutsideLoops (set (scanned r)) initial"
    by (simp add: plainOutsideLoops_def initial_def blocks_def)
  with assms(2) initial_consistent have "plainOutsideLoops (set (scanned r)) s"
    by (rule scanLoop_plain) simp
  then have "\<not> isLoop s \<longrightarrow> \<not> HasPrefix (statementBuf s) ''-- +''"
    by (auto simp: plainOutsideLoops_def dest: plainText_not_annotation)
  with c assms show ?thesis
    by (auto simp: ParseMigration_def finish_def errNoTerminator_def consistent_def)
qed

end
